theory Spec2Isabelle
  imports Complex_Main "HOL-Library.Word" "HOL-Library.Multiset"
begin

section \<open>Machine types, errors and text\<close>

text \<open>
  The container of \<^verbatim>\<open>src/src/vector_of_kll.cpp\<close> works on \<^verbatim>\<open>uint32_t\<close> indices and
  widths, on \<^verbatim>\<open>int\<close> selector entries and on \<^verbatim>\<open>uint64_t\<close> counts. A selector entry is a
  32-bit pattern read as two's complement (\<open>sint\<close>); \<^verbatim>\<open>static_cast<uint32_t>\<close> keeps the
  pattern and reads it unsigned, so both types are \<open>32 word\<close> and the cast is the
  identity on the pattern.

  Arrays are finite lists, and a loop over an array is a recursion over the list. The
  source counts the entries of a selector and the rows of a buffer with a \<^verbatim>\<open>uint32_t\<close>
  that it compares with a \<^verbatim>\<open>size_t\<close> extent, so the recursion is the loop as long as
  the extent is below \<open>2 ^ 32\<close>; the theorems about these loops carry that bound.
\<close>

type_synonym u32 = "32 word"
type_synonym i32 = "32 word"
type_synonym u64 = "64 word"
type_synonym byte = "8 word"

definition static_cast_u32 :: "i32 \<Rightarrow> u32" where
  "static_cast_u32 v = v"

text \<open>
  Every \<^verbatim>\<open>throw\<close> of the source is a value. \<open>Invalid_argument\<close> is
  \<^verbatim>\<open>std::invalid_argument\<close> with its message. \<open>Out_of_bounds i\<close> stands for an
  unchecked read at index \<open>i\<close> past the end of a vector or shape array (undefined behaviour
  in C++). \<open>Engine_error\<close> is whatever the sketch engine throws.
\<close>

datatype error = Invalid_argument string | Out_of_bounds nat | Engine_error string

definition newline :: string where
  "newline = [CHR 0x0A]"

definition decimal_digits :: string where
  "decimal_digits = ''0123456789''"

text \<open>\<^verbatim>\<open>std::to_string\<close> on an unsigned value.\<close>

fun std_to_string :: "nat \<Rightarrow> string" where
  "std_to_string n =
     (if n < 10 then [decimal_digits ! n]
      else std_to_string (n div 10) @ [decimal_digits ! (n mod 10)])"

declare std_to_string.simps [simp del]

text \<open>A loop whose body may throw: the first error ends it.\<close>

fun for_each :: "('x \<Rightarrow> error + 'y) \<Rightarrow> 'x list \<Rightarrow> error + 'y list" where
  "for_each f [] = Inr []"
| "for_each f (x # xs) =
     (case f x of
        Inl e \<Rightarrow> Inl e
      | Inr y \<Rightarrow> (case for_each f xs of Inl e \<Rightarrow> Inl e | Inr ys \<Rightarrow> Inr (y # ys)))"

section \<open>The sketch engine\<close>

text \<open>
  \<^verbatim>\<open>kll_sketch.hpp\<close> is an external library and not part of the sources. The container
  is therefore parameterised by the operations it calls on a sketch: \<open>'sk\<close> is
  \<^verbatim>\<open>kll_sketch<T, C>\<close>, \<open>'a\<close> is the item type \<^verbatim>\<open>T\<close>, \<open>'r\<close> is \<^verbatim>\<open>double\<close> and \<open>'f\<close> is
  \<^verbatim>\<open>float\<close>. A mutating member function returns the new sketch. The constructor, the
  queries and \<^verbatim>\<open>deserialize\<close> may throw. \<^verbatim>\<open>deserialize\<close> takes the bytes and the size
  that its caller passes. The two last fields are the implicit numeric
  conversions of the source: \<^verbatim>\<open>get_ranks\<close> stores each \<^verbatim>\<open>double\<close> rank in a
  \<^verbatim>\<open>std::vector<float>\<close>, \<^verbatim>\<open>get_pmf\<close> and \<^verbatim>\<open>get_cdf\<close> store each \<^verbatim>\<open>double\<close> in a
  \<^verbatim>\<open>std::vector<T>\<close>.
\<close>

record ('sk, 'a, 'r, 'f) kll_sketch =
  sk_new :: "u32 \<Rightarrow> error + 'sk"
  sk_update :: "'a \<Rightarrow> 'sk \<Rightarrow> 'sk"
  sk_merge :: "'sk \<Rightarrow> 'sk \<Rightarrow> 'sk"
  sk_is_empty :: "'sk \<Rightarrow> bool"
  sk_get_n :: "'sk \<Rightarrow> u64"
  sk_get_min_item :: "'sk \<Rightarrow> error + 'a"
  sk_get_max_item :: "'sk \<Rightarrow> error + 'a"
  sk_get_quantile :: "'sk \<Rightarrow> 'r \<Rightarrow> error + 'a"
  sk_get_rank :: "'sk \<Rightarrow> 'a \<Rightarrow> error + 'r"
  sk_get_PMF :: "'sk \<Rightarrow> 'a list \<Rightarrow> error + 'r list"
  sk_get_CDF :: "'sk \<Rightarrow> 'a list \<Rightarrow> error + 'r list"
  sk_serialize :: "'sk \<Rightarrow> byte list"
  sk_deserialize :: "byte list \<Rightarrow> nat \<Rightarrow> error + 'sk"
  sk_to_string :: "'sk \<Rightarrow> bool \<Rightarrow> bool \<Rightarrow> string"
  double_to_float :: "'r \<Rightarrow> 'f"
  double_to_T :: "'r \<Rightarrow> 'a"

section \<open>The container\<close>

record 'sk vector_of_kll_sketches =
  k_of :: u32
  d_of :: u32
  sketches_of :: "'sk list"

text \<open>
  The fields \<open>k_of\<close>, \<open>d_of\<close> and \<open>sketches_of\<close> are the members \<^verbatim>\<open>k_\<close>, \<^verbatim>\<open>d_\<close> and
  \<^verbatim>\<open>sketches_\<close>. The constructor fills \<^verbatim>\<open>sketches_\<close> with \<^verbatim>\<open>d\<close> sketches and no member function
  changes its length, so every container the interface can produce satisfies \<open>well_formed\<close>.
\<close>

definition well_formed :: "'sk vector_of_kll_sketches \<Rightarrow> bool" where
  "well_formed c \<longleftrightarrow> length (sketches_of c) = unat (d_of c)"

text \<open>\<^verbatim>\<open>sketches_[i]\<close>: \<^verbatim>\<open>std::vector::operator[]\<close> does not check its index.\<close>

definition sketch_at :: "'sk vector_of_kll_sketches \<Rightarrow> nat \<Rightarrow> error + 'sk" where
  "sketch_at c i =
     (if i < length (sketches_of c) then Inr (sketches_of c ! i) else Inl (Out_of_bounds i))"

subsection \<open>Index resolver\<close>

definition invalid_dimensions :: "u32 \<Rightarrow> u32 \<Rightarrow> error" where
  "invalid_dimensions d idx =
     Invalid_argument (''request for invalid dimensions >= d ('' @ std_to_string (unat d)
                       @ ''): '' @ std_to_string (unat idx))"

text \<open>
  The loop of the multi-element branch of \<^verbatim>\<open>get_indices\<close>, with \<^verbatim>\<open>indices\<close> as
  accumulator.
\<close>

fun get_indices_loop :: "u32 \<Rightarrow> i32 list \<Rightarrow> u32 list \<Rightarrow> error + u32 list" where
  "get_indices_loop d [] indices = Inr indices"
| "get_indices_loop d (v # vs) indices =
     (let idx = static_cast_u32 v in
      if idx < d then get_indices_loop d vs (indices @ [idx])
      else Inl (invalid_dimensions d idx))"

definition get_indices :: "'sk vector_of_kll_sketches \<Rightarrow> i32 list \<Rightarrow> error + u32 list" where
  "get_indices c isk =
     (if length isk = 1 then
        (if isk ! 0 = - 1 then Inr (map of_nat [0..<unat (d_of c)])
         else Inr [static_cast_u32 (isk ! 0)])
      else get_indices_loop (d_of c) isk [])"

subsection \<open>Construction\<close>

text \<open>
  \<^verbatim>\<open>vector_of_kll_sketches(k, d)\<close>: the check of \<^verbatim>\<open>d\<close>, then one
  \<^verbatim>\<open>emplace_back(k)\<close> per channel; \<^verbatim>\<open>k\<close> is checked by the engine's constructor.
\<close>

definition new_vector_of_kll_sketches ::
  "('sk, 'a, 'r, 'f) kll_sketch \<Rightarrow> u32 \<Rightarrow> u32 \<Rightarrow> error + 'sk vector_of_kll_sketches" where
  "new_vector_of_kll_sketches E k d =
     (if d < 1 then Inl (Invalid_argument (''D must be >= 1: '' @ std_to_string (unat d)))
      else (case for_each (\<lambda>i. sk_new E k) [0..<unat d] of
              Inl e \<Rightarrow> Inl e
            | Inr S \<Rightarrow> Inr \<lparr>k_of = k, d_of = d, sketches_of = S\<rparr>))"

definition get_k :: "'sk vector_of_kll_sketches \<Rightarrow> u32" where
  "get_k c = k_of c"

definition get_d :: "'sk vector_of_kll_sketches \<Rightarrow> u32" where
  "get_d c = d_of c"

subsection \<open>Update\<close>

text \<open>
  The input buffer \<^verbatim>\<open>nb::ndarray<T>\<close>: its shape (\<^verbatim>\<open>ndim\<close> is the length of the shape),
  the storage order that \<^verbatim>\<open>check_order\<close> reports (\<open>F\<close>, \<open>C\<close> or \<open>?\<close>) and the element
  accessor \<^verbatim>\<open>items(i)\<close>, \<^verbatim>\<open>items(i, j)\<close>. Which of the three overloads of
  \<^verbatim>\<open>check_order\<close> a call selects is decided by the type of its argument; the model keeps
  the answer as an attribute of the buffer, so that what is proved of \<^verbatim>\<open>update\<close> holds
  for each of the three answers.
\<close>

record 'a ndarray =
  nd_shape :: "nat list"
  nd_order :: char
  nd_at :: "nat list \<Rightarrow> 'a"

definition check_order :: "'a ndarray \<Rightarrow> char" where
  "check_order items = nd_order items"

text \<open>\<^verbatim>\<open>sketches_[j].update(v)\<close> on the vector of sketches.\<close>

definition update_sketch :: "('a \<Rightarrow> 'sk \<Rightarrow> 'sk) \<Rightarrow> 'a \<Rightarrow> nat \<Rightarrow> 'sk list \<Rightarrow> 'sk list" where
  "update_sketch u v j S = S[j := u v (S ! j)]"

text \<open>The loop of the 1-D case and the two loop nests of the 2-D case.\<close>

definition update_1d ::
  "('a \<Rightarrow> 'sk \<Rightarrow> 'sk) \<Rightarrow> 'a ndarray \<Rightarrow> nat \<Rightarrow> 'sk list \<Rightarrow> 'sk list" where
  "update_1d u items d S = fold (\<lambda>i. update_sketch u (nd_at items [i]) i) [0..<d] S"

definition update_2d_F ::
  "('a \<Rightarrow> 'sk \<Rightarrow> 'sk) \<Rightarrow> 'a ndarray \<Rightarrow> nat \<Rightarrow> 'sk list \<Rightarrow> 'sk list" where
  "update_2d_F u items d S =
     fold (\<lambda>j. fold (\<lambda>i. update_sketch u (nd_at items [i, j]) j) [0..<nd_shape items ! 0])
          [0..<d] S"

definition update_2d_C ::
  "('a \<Rightarrow> 'sk \<Rightarrow> 'sk) \<Rightarrow> 'a ndarray \<Rightarrow> nat \<Rightarrow> 'sk list \<Rightarrow> 'sk list" where
  "update_2d_C u items d S =
     fold (\<lambda>i. fold (\<lambda>j. update_sketch u (nd_at items [i, j]) j) [0..<d])
          [0..<nd_shape items ! 0] S"

text \<open>
  A mutating member function returns the exception it threw, if any, and the container
  as it is when the call ends. \<^verbatim>\<open>items.shape(ndim - 1)\<close> on an array of no dimension
  reads the shape at index \<^verbatim>\<open>SIZE_MAX\<close>.
\<close>

definition update ::
  "('sk, 'a, 'r, 'f) kll_sketch \<Rightarrow> 'a ndarray \<Rightarrow> 'sk vector_of_kll_sketches
   \<Rightarrow> error option \<times> 'sk vector_of_kll_sketches" where
  "update E items c =
     (let ndim = length (nd_shape items); d = unat (d_of c) in
      if ndim = 0 then (Some (Out_of_bounds (2 ^ 64 - 1)), c)
      else if nd_shape items ! (ndim - 1) \<noteq> d then
        (Some (Invalid_argument (''input data must have rows with  '' @ std_to_string d
                 @ '' elements. Found: '' @ std_to_string (nd_shape items ! (ndim - 1)))), c)
      else if ndim = 1 then
        (None, c\<lparr>sketches_of := update_1d (sk_update E) items d (sketches_of c)\<rparr>)
      else if ndim = 2 then
        (if check_order items = CHR ''F'' then
           (None, c\<lparr>sketches_of := update_2d_F (sk_update E) items d (sketches_of c)\<rparr>)
         else
           (None, c\<lparr>sketches_of := update_2d_C (sk_update E) items d (sketches_of c)\<rparr>))
      else
        (Some (Invalid_argument (''Update input must be 2 or fewer dimensions : ''
                 @ std_to_string ndim)), c))"

subsection \<open>Merge and collapse\<close>

definition merge ::
  "('sk, 'a, 'r, 'f) kll_sketch \<Rightarrow> 'sk vector_of_kll_sketches \<Rightarrow> 'sk vector_of_kll_sketches
   \<Rightarrow> error option \<times> 'sk vector_of_kll_sketches" where
  "merge E c other =
     (if d_of c \<noteq> get_d other then
        (Some (Invalid_argument (''Must have same number of dimensions to merge: ''
                 @ std_to_string (unat (d_of c)) @ '' vs '' @ std_to_string (unat (d_of other)))), c)
      else
        (None, c\<lparr>sketches_of :=
                   fold (\<lambda>i S. S[i := sk_merge E (S ! i) (sketches_of other ! i)])
                        [0..<unat (d_of c)] (sketches_of c)\<rparr>))"

text \<open>
  Containers are objects that several names may refer to. \<open>merge_objects E a b h\<close> is
  the call \<^verbatim>\<open>a.merge(b)\<close> on a store \<open>h\<close> from object identities to containers: it reads
  the two objects and writes the receiver back.
\<close>

definition merge_objects ::
  "('sk, 'a, 'r, 'f) kll_sketch \<Rightarrow> nat \<Rightarrow> nat \<Rightarrow> (nat \<Rightarrow> 'sk vector_of_kll_sketches)
   \<Rightarrow> error option \<times> (nat \<Rightarrow> 'sk vector_of_kll_sketches)" where
  "merge_objects E a b h = (case merge E (h a) (h b) of (r, c') \<Rightarrow> (r, h(a := c')))"

text \<open>
  \<^verbatim>\<open>collapse\<close>: the loop counter \<^verbatim>\<open>idx\<close> runs from \<open>0\<close> to the extent of the selector
  and is itself the index into \<^verbatim>\<open>sketches_\<close>.
\<close>

fun collapse_loop ::
  "('sk, 'a, 'r, 'f) kll_sketch \<Rightarrow> 'sk vector_of_kll_sketches \<Rightarrow> nat list \<Rightarrow> 'sk \<Rightarrow> error + 'sk" where
  "collapse_loop E c [] result = Inr result"
| "collapse_loop E c (idx # rest) result =
     (case sketch_at c idx of
        Inl e \<Rightarrow> Inl e
      | Inr s \<Rightarrow> collapse_loop E c rest (sk_merge E result s))"

definition collapse ::
  "('sk, 'a, 'r, 'f) kll_sketch \<Rightarrow> 'sk vector_of_kll_sketches \<Rightarrow> i32 list \<Rightarrow> error + 'sk" where
  "collapse E c isk =
     (case sk_new E (k_of c) of
        Inl e \<Rightarrow> Inl e
      | Inr result \<Rightarrow> collapse_loop E c [0..<length isk] result)"

subsection \<open>Per-channel and bulk queries\<close>

definition get_n :: "('sk, 'a, 'r, 'f) kll_sketch \<Rightarrow> 'sk vector_of_kll_sketches \<Rightarrow> u64 list" where
  "get_n E c = map (\<lambda>i. sk_get_n E (sketches_of c ! i)) [0..<unat (d_of c)]"

definition is_empty :: "('sk, 'a, 'r, 'f) kll_sketch \<Rightarrow> 'sk vector_of_kll_sketches \<Rightarrow> bool list" where
  "is_empty E c = map (\<lambda>i. sk_is_empty E (sketches_of c ! i)) [0..<unat (d_of c)]"

definition get_min_values ::
  "('sk, 'a, 'r, 'f) kll_sketch \<Rightarrow> 'sk vector_of_kll_sketches \<Rightarrow> error + 'a list" where
  "get_min_values E c = for_each (\<lambda>i. sk_get_min_item E (sketches_of c ! i)) [0..<unat (d_of c)]"

definition get_max_values ::
  "('sk, 'a, 'r, 'f) kll_sketch \<Rightarrow> 'sk vector_of_kll_sketches \<Rightarrow> error + 'a list" where
  "get_max_values E c = for_each (\<lambda>i. sk_get_max_item E (sketches_of c ! i)) [0..<unat (d_of c)]"

text \<open>
  \<^verbatim>\<open>get_quantiles\<close> and \<^verbatim>\<open>get_ranks\<close> read \<^verbatim>\<open>sketches_[inds[i]]\<close> inside the inner
  loop, once per query point. The result is the nested vector the loops fill: one row
  per selected sketch.
\<close>

definition get_quantiles ::
  "('sk, 'a, 'r, 'f) kll_sketch \<Rightarrow> 'sk vector_of_kll_sketches \<Rightarrow> 'r list \<Rightarrow> i32 list
   \<Rightarrow> error + 'a list list" where
  "get_quantiles E c ranks isk =
     (case get_indices c isk of
        Inl e \<Rightarrow> Inl e
      | Inr inds \<Rightarrow>
          for_each (\<lambda>ind. for_each (\<lambda>rank.
              (case sketch_at c (unat ind) of
                 Inl e \<Rightarrow> Inl e
               | Inr s \<Rightarrow> sk_get_quantile E s rank)) ranks) inds)"

definition get_ranks ::
  "('sk, 'a, 'r, 'f) kll_sketch \<Rightarrow> 'sk vector_of_kll_sketches \<Rightarrow> 'a list \<Rightarrow> i32 list
   \<Rightarrow> error + 'f list list" where
  "get_ranks E c vals isk =
     (case get_indices c isk of
        Inl e \<Rightarrow> Inl e
      | Inr inds \<Rightarrow>
          for_each (\<lambda>ind. for_each (\<lambda>v.
              (case sketch_at c (unat ind) of
                 Inl e \<Rightarrow> Inl e
               | Inr s \<Rightarrow> (case sk_get_rank E s v of
                            Inl e \<Rightarrow> Inl e
                          | Inr r \<Rightarrow> Inr (double_to_float E r)))) vals) inds)"

text \<open>
  The copy loop of \<^verbatim>\<open>get_pmf\<close> and \<^verbatim>\<open>get_cdf\<close> reads \<^verbatim>\<open>pmf[j]\<close> for every
  \<^verbatim>\<open>j <= num_splits\<close>, whatever the length of the vector the engine returned.
\<close>

definition copy_row :: "('r \<Rightarrow> 'a) \<Rightarrow> 'r list \<Rightarrow> nat \<Rightarrow> error + 'a list" where
  "copy_row conv pmf num_splits =
     for_each (\<lambda>j. if j < length pmf then Inr (conv (pmf ! j)) else Inl (Out_of_bounds j))
              [0..<num_splits + 1]"

definition get_pmf ::
  "('sk, 'a, 'r, 'f) kll_sketch \<Rightarrow> 'sk vector_of_kll_sketches \<Rightarrow> 'a list \<Rightarrow> i32 list
   \<Rightarrow> error + 'a list list" where
  "get_pmf E c split_points isk =
     (case get_indices c isk of
        Inl e \<Rightarrow> Inl e
      | Inr inds \<Rightarrow>
          for_each (\<lambda>ind.
              (case sketch_at c (unat ind) of
                 Inl e \<Rightarrow> Inl e
               | Inr s \<Rightarrow> (case sk_get_PMF E s split_points of
                            Inl e \<Rightarrow> Inl e
                          | Inr pmf \<Rightarrow> copy_row (double_to_T E) pmf (length split_points)))) inds)"

definition get_cdf ::
  "('sk, 'a, 'r, 'f) kll_sketch \<Rightarrow> 'sk vector_of_kll_sketches \<Rightarrow> 'a list \<Rightarrow> i32 list
   \<Rightarrow> error + 'a list list" where
  "get_cdf E c split_points isk =
     (case get_indices c isk of
        Inl e \<Rightarrow> Inl e
      | Inr inds \<Rightarrow>
          for_each (\<lambda>ind.
              (case sketch_at c (unat ind) of
                 Inl e \<Rightarrow> Inl e
               | Inr s \<Rightarrow> (case sk_get_CDF E s split_points of
                            Inl e \<Rightarrow> Inl e
                          | Inr cdf \<Rightarrow> copy_row (double_to_T E) cdf (length split_points)))) inds)"

subsection \<open>Text and binary output\<close>

definition to_string ::
  "('sk, 'a, 'r, 'f) kll_sketch \<Rightarrow> 'sk vector_of_kll_sketches \<Rightarrow> bool \<Rightarrow> bool \<Rightarrow> string" where
  "to_string E c print_levels print_items =
     fold (\<lambda>i ss. (if 0 < i then ss @ newline else ss)
                   @ sk_to_string E (sketches_of c ! i) print_levels print_items)
          [0..<unat (d_of c)] []"

definition serialize ::
  "('sk, 'a, 'r, 'f) kll_sketch \<Rightarrow> 'sk vector_of_kll_sketches \<Rightarrow> i32 list
   \<Rightarrow> error + byte list list" where
  "serialize E c isk =
     (case get_indices c isk of
        Inl e \<Rightarrow> Inl e
      | Inr inds \<Rightarrow>
          for_each (\<lambda>ind.
              (case sketch_at c (unat ind) of
                 Inl e \<Rightarrow> Inl e
               | Inr s \<Rightarrow> Inr (sk_serialize E s))) inds)"

text \<open>
  \<^verbatim>\<open>deserialize\<close> calls the engine with \<^verbatim>\<open>sk_bytes.c_str()\<close> and the size
  \<^verbatim>\<open>skStr.length()\<close>. The source declares no \<^verbatim>\<open>skStr\<close>: neither a parameter, nor a
  local, nor a member has that name, so the function does not compile as it is. The
  missing declaration is a parameter of the model: \<open>skStr\<close> is the string that the name
  stands for, and the engine receives the bytes of \<^verbatim>\<open>sk_bytes\<close> with the size
  \<open>length skStr\<close>.
\<close>

definition deserialize ::
  "('sk, 'a, 'r, 'f) kll_sketch \<Rightarrow> string \<Rightarrow> byte list \<Rightarrow> u32 \<Rightarrow> 'sk vector_of_kll_sketches
   \<Rightarrow> error option \<times> 'sk vector_of_kll_sketches" where
  "deserialize E skStr sk_bytes idx c =
     (if idx \<ge> d_of c then (Some (invalid_dimensions (d_of c) idx), c)
      else (case sk_deserialize E sk_bytes (length skStr) of
              Inl e \<Rightarrow> (Some e, c)
            | Inr s \<Rightarrow> (None, c\<lparr>sketches_of := (sketches_of c)[unat idx := s]\<rparr>)))"

section \<open>A reference engine\<close>

text \<open>
  Modelled from the spec: the KLL sketch engine (\<^verbatim>\<open>kll_sketch.hpp\<close>, an external
  collaborator that is not part of the sources), in the regime the spec calls exact:
  the sketch retains every item it was given. It provides the operations the spec lists
  for the engine; the spec leaves the byte format open, and the format here is the
  parameter \<open>k\<close> in four bytes followed by one byte per item. It is the concrete engine
  on which the theorems below are instantiated.
\<close>

record exact_sketch =
  ex_k :: u32
  ex_items :: "rat list"

definition empty_sketch_error :: error where
  "empty_sketch_error = Engine_error ''operation is undefined for an empty sketch''"

definition ex_update :: "rat \<Rightarrow> exact_sketch \<Rightarrow> exact_sketch" where
  "ex_update v s = s\<lparr>ex_items := ex_items s @ [v]\<rparr>"

definition ex_merge :: "exact_sketch \<Rightarrow> exact_sketch \<Rightarrow> exact_sketch" where
  "ex_merge s other = s\<lparr>ex_items := ex_items s @ ex_items other\<rparr>"

definition ex_get_n :: "exact_sketch \<Rightarrow> u64" where
  "ex_get_n s = of_nat (length (ex_items s))"

definition ex_get_min_item :: "exact_sketch \<Rightarrow> error + rat" where
  "ex_get_min_item s =
     (case ex_items s of [] \<Rightarrow> Inl empty_sketch_error | x # xs \<Rightarrow> Inr (fold min xs x))"

definition ex_get_max_item :: "exact_sketch \<Rightarrow> error + rat" where
  "ex_get_max_item s =
     (case ex_items s of [] \<Rightarrow> Inl empty_sketch_error | x # xs \<Rightarrow> Inr (fold max xs x))"

definition ex_rank :: "exact_sketch \<Rightarrow> rat \<Rightarrow> rat" where
  "ex_rank s v = of_nat (length (filter (\<lambda>x. x \<le> v) (ex_items s))) / of_nat (length (ex_items s))"

definition ex_get_rank :: "exact_sketch \<Rightarrow> rat \<Rightarrow> error + rat" where
  "ex_get_rank s v = (if ex_items s = [] then Inl empty_sketch_error else Inr (ex_rank s v))"

definition ex_get_quantile :: "exact_sketch \<Rightarrow> rat \<Rightarrow> error + rat" where
  "ex_get_quantile s r =
     (if ex_items s = [] then Inl empty_sketch_error
      else Inr (sort (ex_items s) ! (nat \<lceil>r * of_nat (length (ex_items s))\<rceil> - 1)))"

definition ex_get_CDF :: "exact_sketch \<Rightarrow> rat list \<Rightarrow> error + rat list" where
  "ex_get_CDF s splits =
     (if ex_items s = [] then Inl empty_sketch_error else Inr (map (ex_rank s) splits @ [1]))"

fun differences :: "rat \<Rightarrow> rat list \<Rightarrow> rat list" where
  "differences prev [] = []"
| "differences prev (x # xs) = (x - prev) # differences x xs"

definition ex_get_PMF :: "exact_sketch \<Rightarrow> rat list \<Rightarrow> error + rat list" where
  "ex_get_PMF s splits =
     (if ex_items s = [] then Inl empty_sketch_error
      else Inr (differences 0 (map (ex_rank s) splits @ [1])))"

definition ex_serialize :: "exact_sketch \<Rightarrow> byte list" where
  "ex_serialize s =
     [ucast (ex_k s), ucast (drop_bit 8 (ex_k s)), ucast (drop_bit 16 (ex_k s)),
      ucast (drop_bit 24 (ex_k s))]
     @ map (\<lambda>x. of_int \<lfloor>x\<rfloor>) (ex_items s)"

fun ex_decode :: "byte list \<Rightarrow> error + exact_sketch" where
  "ex_decode (b0 # b1 # b2 # b3 # items) =
     Inr \<lparr>ex_k = ucast b0 + push_bit 8 (ucast b1) + push_bit 16 (ucast b2)
                  + push_bit 24 (ucast b3),
          ex_items = map (\<lambda>b. of_nat (unat b)) items\<rparr>"
| "ex_decode bs = Inl (Engine_error ''insufficient buffer size'')"

text \<open>The engine reads the first \<open>n\<close> bytes of the buffer it is given.\<close>

definition ex_deserialize :: "byte list \<Rightarrow> nat \<Rightarrow> error + exact_sketch" where
  "ex_deserialize bytes n =
     (if n \<le> length bytes then ex_decode (take n bytes)
      else Inl (Engine_error ''insufficient buffer size''))"

definition ex_to_string :: "exact_sketch \<Rightarrow> bool \<Rightarrow> bool \<Rightarrow> string" where
  "ex_to_string s print_levels print_items =
     ''### KLL sketch summary:'' @ newline
     @ ''   K              : '' @ std_to_string (unat (ex_k s)) @ newline
     @ ''   N              : '' @ std_to_string (length (ex_items s)) @ newline
     @ ''### End sketch summary'' @ newline"

definition exact_kll :: "(exact_sketch, rat, rat, rat) kll_sketch" where
  "exact_kll =
     \<lparr>sk_new = (\<lambda>k. Inr \<lparr>ex_k = k, ex_items = []\<rparr>),
      sk_update = ex_update,
      sk_merge = ex_merge,
      sk_is_empty = (\<lambda>s. ex_items s = []),
      sk_get_n = ex_get_n,
      sk_get_min_item = ex_get_min_item,
      sk_get_max_item = ex_get_max_item,
      sk_get_quantile = ex_get_quantile,
      sk_get_rank = ex_get_rank,
      sk_get_PMF = ex_get_PMF,
      sk_get_CDF = ex_get_CDF,
      sk_serialize = ex_serialize,
      sk_deserialize = ex_deserialize,
      sk_to_string = ex_to_string,
      double_to_float = (\<lambda>r. r),
      double_to_T = (\<lambda>r. r)\<rparr>"

text \<open>A buffer given by its rows, and one given by its elements.\<close>

definition matrix :: "char \<Rightarrow> 'a list list \<Rightarrow> 'a ndarray" where
  "matrix order rows =
     \<lparr>nd_shape = [length rows, length (hd rows)], nd_order = order,
      nd_at = (\<lambda>ix. rows ! (ix ! 0) ! (ix ! 1))\<rparr>"

definition vector :: "'a list \<Rightarrow> 'a ndarray" where
  "vector xs = \<lparr>nd_shape = [length xs], nd_order = CHR ''C'', nd_at = (\<lambda>ix. xs ! (ix ! 0))\<rparr>"

text \<open>Containers used as concrete inputs.\<close>

definition two_channels :: "unit vector_of_kll_sketches" where
  "two_channels = \<lparr>k_of = 200, d_of = 2, sketches_of = [(), ()]\<rparr>"

definition two_exact :: "exact_sketch vector_of_kll_sketches" where
  "two_exact =
     \<lparr>k_of = 200, d_of = 2,
      sketches_of = [\<lparr>ex_k = 200, ex_items = [1, 3]\<rparr>, \<lparr>ex_k = 200, ex_items = [2, 4]\<rparr>]\<rparr>"

definition wide_container :: "exact_sketch vector_of_kll_sketches" where
  "wide_container =
     \<lparr>k_of = 200, d_of = 4294967295,
      sketches_of = replicate 4294967295 \<lparr>ex_k = 200, ex_items = []\<rparr>\<rparr>"

text \<open>
  Scenario 5 of the spec: construct \<open>(k = 200, d = 2)\<close>, update with the row-major
  records \<open>[[1, 2], [3, 4]]\<close>, then \<^verbatim>\<open>collapse([-1])\<close>.
\<close>

definition scenario_collapse :: "error + exact_sketch" where
  "scenario_collapse =
     (case new_vector_of_kll_sketches exact_kll 200 2 of
        Inl e \<Rightarrow> Inl e
      | Inr c \<Rightarrow>
          (case update exact_kll (matrix CHR ''C'' [[1, 2], [3, 4]]) c of
             (Some e, c') \<Rightarrow> Inl e
           | (None, c') \<Rightarrow> collapse exact_kll c' [- 1]))"

definition three_dims :: "rat ndarray" where
  "three_dims = \<lparr>nd_shape = [1, 1, 2], nd_order = CHR ''C'', nd_at = (\<lambda>ix. 0)\<rparr>"

definition three_exact :: "exact_sketch vector_of_kll_sketches" where
  "three_exact =
     \<lparr>k_of = 200, d_of = 3,
      sketches_of = [\<lparr>ex_k = 200, ex_items = []\<rparr>, \<lparr>ex_k = 200, ex_items = []\<rparr>,
                     \<lparr>ex_k = 200, ex_items = []\<rparr>]\<rparr>"

definition two_other :: "exact_sketch vector_of_kll_sketches" where
  "two_other =
     \<lparr>k_of = 200, d_of = 2,
      sketches_of = [\<lparr>ex_k = 200, ex_items = [5]\<rparr>, \<lparr>ex_k = 200, ex_items = [6, 7, 8]\<rparr>]\<rparr>"

definition two_objects :: "nat \<Rightarrow> exact_sketch vector_of_kll_sketches" where
  "two_objects = (\<lambda>x. two_exact)(1 := two_other)"

definition three_rows :: "char \<Rightarrow> rat ndarray" where
  "three_rows order = matrix order [[10, 20], [30, 40], [50, 60]]"

text \<open>The container \<open>two_exact\<close> after one more record.\<close>

definition two_mutated :: "exact_sketch vector_of_kll_sketches" where
  "two_mutated = snd (update exact_kll (vector [7, 8]) two_exact)"

section \<open>What a bulk query is compared with\<close>

text \<open>
  The spec relates each row of a bulk query to "the standalone query" on one sketch.
  These definitions follow the spec's words: the engine's query on the single sketch
  \<open>s\<close> at every query point, held in the element type in which the bulk query stores
  it (\<^verbatim>\<open>float\<close> for ranks, \<^verbatim>\<open>T\<close> for PMF and CDF values).
\<close>

definition standalone_quantiles ::
  "('sk, 'a, 'r, 'f) kll_sketch \<Rightarrow> 'sk \<Rightarrow> 'r list \<Rightarrow> error + 'a list" where
  "standalone_quantiles E s ranks = for_each (sk_get_quantile E s) ranks"

definition standalone_ranks ::
  "('sk, 'a, 'r, 'f) kll_sketch \<Rightarrow> 'sk \<Rightarrow> 'a list \<Rightarrow> error + 'f list" where
  "standalone_ranks E s vals =
     for_each (\<lambda>v. case sk_get_rank E s v of Inl e \<Rightarrow> Inl e | Inr r \<Rightarrow> Inr (double_to_float E r))
              vals"

definition standalone_pmf ::
  "('sk, 'a, 'r, 'f) kll_sketch \<Rightarrow> 'sk \<Rightarrow> 'a list \<Rightarrow> error + 'a list" where
  "standalone_pmf E s split_points =
     (case sk_get_PMF E s split_points of
        Inl e \<Rightarrow> Inl e
      | Inr pmf \<Rightarrow> copy_row (double_to_T E) pmf (length split_points))"

definition standalone_cdf ::
  "('sk, 'a, 'r, 'f) kll_sketch \<Rightarrow> 'sk \<Rightarrow> 'a list \<Rightarrow> error + 'a list" where
  "standalone_cdf E s split_points =
     (case sk_get_CDF E s split_points of
        Inl e \<Rightarrow> Inl e
      | Inr cdf \<Rightarrow> copy_row (double_to_T E) cdf (length split_points))"

text \<open>A selector that names channels: every entry lies in \<open>[0, d)\<close>.\<close>

definition valid_selector :: "'sk vector_of_kll_sketches \<Rightarrow> i32 list \<Rightarrow> bool" where
  "valid_selector c isk \<longleftrightarrow> (\<forall>v\<in>set isk. 0 \<le> sint v \<and> sint v < uint (d_of c))"

text \<open>
  A result \<open>M\<close> has one row per entry of the selector, of \<open>q\<close> columns, and row \<open>r\<close> is the
  standalone result \<open>f\<close> for the \<open>r\<close>-th entry.
\<close>

definition rows_are_standalone ::
  "'y list list \<Rightarrow> 'x list \<Rightarrow> nat \<Rightarrow> ('x \<Rightarrow> error + 'y list) \<Rightarrow> bool" where
  "rows_are_standalone M sel q f \<longleftrightarrow>
     length M = length sel
     \<and> (\<forall>r<length sel. f (sel ! r) = Inr (M ! r) \<and> length (M ! r) = q)"

section \<open>What the text output is compared with\<close>

text \<open>
  These definitions follow the spec's words. \<open>joined_by sep xs\<close> is the strings \<open>xs\<close>
  "joined by" the separator \<open>sep\<close>. \<open>split_on_blank_line\<close> is what a consumer does who
  "splits on the blank-line boundary": it cuts the text at each \<open>\n\n\<close>, scanning from
  the left, as \<^verbatim>\<open>str.split('\n\n')\<close> does. \<open>has_blank_line\<close> says that a text contains
  \<open>\n\n\<close>.
\<close>

fun joined_by :: "string \<Rightarrow> string list \<Rightarrow> string" where
  "joined_by sep [] = []"
| "joined_by sep [x] = x"
| "joined_by sep (x # y # ys) = x @ sep @ joined_by sep (y # ys)"

fun has_blank_line :: "string \<Rightarrow> bool" where
  "has_blank_line (a # b # s) = ((a = CHR 0x0A \<and> b = CHR 0x0A) \<or> has_blank_line (b # s))"
| "has_blank_line s = False"

fun split_on_blank_line :: "string \<Rightarrow> string list" where
  "split_on_blank_line (a # b # s) =
     (if a = CHR 0x0A \<and> b = CHR 0x0A then [] # split_on_blank_line s
      else (case split_on_blank_line (b # s) of
              [] \<Rightarrow> [[a]]
            | p # ps \<Rightarrow> (a # p) # ps))"
| "split_on_blank_line s = [s]"

text \<open>
  The per-sketch summaries of a container, in channel order, and the form of a summary
  that makes the boundary between two summaries a blank line: the summary ends with a
  newline and holds no blank line itself.
\<close>

definition summaries ::
  "('sk, 'a, 'r, 'f) kll_sketch \<Rightarrow> 'sk vector_of_kll_sketches \<Rightarrow> bool \<Rightarrow> bool \<Rightarrow> string list" where
  "summaries E c print_levels print_items =
     map (\<lambda>s. sk_to_string E s print_levels print_items) (sketches_of c)"

definition ends_line :: "string \<Rightarrow> bool" where
  "ends_line s \<longleftrightarrow> s \<noteq> [] \<and> last s = CHR 0x0A \<and> \<not> has_blank_line s"

section \<open>The index resolver\<close>

lemma get_indices_loop_accepts:
  "\<forall>v\<in>set vs. v < d \<Longrightarrow> get_indices_loop d vs acc = Inr (acc @ vs)"
  by (induction vs arbitrary: acc) (simp_all add: static_cast_u32_def)

lemma get_indices_loop_rejects:
  "i < length vs \<Longrightarrow> \<not> vs ! i < d \<Longrightarrow> \<forall>j<i. vs ! j < d
   \<Longrightarrow> get_indices_loop d vs acc = Inl (invalid_dimensions d (vs ! i))"
proof (induction vs arbitrary: i acc)
  case Nil
  then show ?case by simp
next
  case (Cons v vs)
  show ?case
  proof (cases i)
    case 0
    with Cons.prems show ?thesis by (simp add: static_cast_u32_def)
  next
    case (Suc i')
    from Cons.prems Suc have "v < d" by auto
    moreover from Cons.prems Suc have "i' < length vs" "\<not> vs ! i' < d" "\<forall>j<i'. vs ! j < d"
      by auto
    ultimately show ?thesis using Cons.IH [of i'] Suc
      by (simp add: static_cast_u32_def)
  qed
qed

text \<open>The two readings of a 32-bit pattern.\<close>

lemma sint_32_cases:
  "sint (v::32 word) = (if uint v < 2147483648 then uint v else uint v - 4294967296)"
proof -
  have b: "0 \<le> uint v" "uint v < 4294967296"
    using uint_lt2p [of v] by simp_all
  show ?thesis
  proof (cases "uint v < 2147483648")
    case True
    then have "(uint v + 2147483648) mod 4294967296 = uint v + 2147483648"
      using b by simp
    with True show ?thesis
      by (simp add: sint_uint signed_take_bit_eq_take_bit_shift take_bit_eq_mod)
  next
    case False
    then have "(uint v + 2147483648) mod 4294967296 = uint v + 2147483648 - 4294967296"
      using b by (simp add: mod_pos_geq)
    with False show ?thesis
      by (simp add: sint_uint signed_take_bit_eq_take_bit_shift take_bit_eq_mod)
  qed
qed

lemma unsigned_test_is_range_test:
  assumes "(d::32 word) \<le> 2147483648"
  shows "v < d \<longleftrightarrow> 0 \<le> sint v \<and> sint v < uint d"
proof -
  from assms have d: "uint d \<le> 2147483648" by (simp add: word_le_def)
  have b: "0 \<le> uint v" "uint v < 4294967296"
    using uint_lt2p [of v] by simp_all
  show ?thesis using d b by (auto simp: word_less_alt sint_32_cases)
qed

lemma negative_is_large: "sint (v::32 word) < 0 \<Longrightarrow> 2147483648 \<le> v"
  by (simp add: sint_32_cases word_le_def split: if_splits)

lemma nonneg_uint: "0 \<le> sint (v::32 word) \<Longrightarrow> uint v = sint v"
proof -
  have b: "uint v < 4294967296" using uint_lt2p [of v] by simp
  assume "0 \<le> sint v"
  then show ?thesis using b by (simp add: sint_32_cases split: if_splits)
qed

text \<open>
  C2, as the code has it. On a container of width \<open>d\<close>, \<^verbatim>\<open>get_indices\<close> returns
  \<open>[0, ..., d - 1]\<close> for the selector \<open>[-1]\<close>, and the singleton \<open>[v]\<close> for any other
  one-element selector \<open>[v]\<close>, with no bound check. For a selector whose length is not
  1 (and below \<open>2 ^ 32\<close>, the range of the loop counter) it tests every entry, read as an unsigned 32-bit value, against \<open>d\<close>: when every
  entry passes, the result is the selector itself, order and duplicates kept; otherwise
  the call fails with invalid-argument, and the message holds \<open>d\<close> and the unsigned
  value of the first entry that does not pass. For \<open>d \<le> 2 ^ 31\<close> the unsigned test is
  the test \<open>0 \<le> v < d\<close> on the signed entry, and the unsigned value of an entry
  \<open>v \<ge> 0\<close> is \<open>v\<close>.
\<close>

theorem get_indices_resolves:
  "get_indices c [- 1] = Inr (map of_nat [0..<unat (d_of c)])
   \<and> (v \<noteq> - 1 \<longrightarrow> get_indices c [v] = Inr [v])
   \<and> (length isk \<noteq> 1 \<and> length isk < 4294967296 \<and> (\<forall>w\<in>set isk. w < d_of c)
        \<longrightarrow> get_indices c isk = Inr isk)
   \<and> (length isk \<noteq> 1 \<and> length isk < 4294967296 \<and> i < length isk \<and> \<not> isk ! i < d_of c
          \<and> (\<forall>j<i. isk ! j < d_of c)
        \<longrightarrow> get_indices c isk =
            Inl (Invalid_argument (''request for invalid dimensions >= d (''
                   @ std_to_string (unat (d_of c)) @ ''): '' @ std_to_string (unat (isk ! i)))))
   \<and> (d_of c \<le> 2147483648 \<longrightarrow> (v < d_of c \<longleftrightarrow> 0 \<le> sint v \<and> sint v < uint (d_of c)))
   \<and> (0 \<le> sint v \<longrightarrow> uint v = sint v)"
proof (intro conjI impI)
  show "get_indices c [- 1] = Inr (map of_nat [0..<unat (d_of c)])"
    by (simp add: get_indices_def)
  show "get_indices c [v] = Inr [v]" if "v \<noteq> - 1"
    using that by (simp add: get_indices_def static_cast_u32_def)
  show "get_indices c isk = Inr isk"
    if "length isk \<noteq> 1 \<and> length isk < 4294967296 \<and> (\<forall>w\<in>set isk. w < d_of c)"
    using that get_indices_loop_accepts [of isk "d_of c" "[]"] by (simp add: get_indices_def)
  show "get_indices c isk =
          Inl (Invalid_argument (''request for invalid dimensions >= d (''
                 @ std_to_string (unat (d_of c)) @ ''): '' @ std_to_string (unat (isk ! i))))"
    if "length isk \<noteq> 1 \<and> length isk < 4294967296 \<and> i < length isk \<and> \<not> isk ! i < d_of c
        \<and> (\<forall>j<i. isk ! j < d_of c)"
    using that get_indices_loop_rejects [of i isk "d_of c" "[]"]
    by (simp add: get_indices_def invalid_dimensions_def)
  show "(v < d_of c) = (0 \<le> sint v \<and> sint v < uint (d_of c))" if "d_of c \<le> 2147483648"
    using that by (rule unsigned_test_is_range_test)
  show "uint v = sint v" if "0 \<le> sint v"
    using that by (rule nonneg_uint)
qed

theorem get_indices_resolves_witness:
  "get_indices two_channels [1] = Inr [1]
   \<and> get_indices two_channels [1, 0, 1] = Inr [1, 0, 1]
   \<and> get_indices two_channels [0, 5, 7] =
       Inl (Invalid_argument ''request for invalid dimensions >= d (2): 5'')
   \<and> ((1::32 word) < 2 \<longleftrightarrow> 0 \<le> sint (1::32 word) \<and> sint (1::32 word) < uint (2::32 word))
   \<and> uint (1::32 word) = sint (1::32 word)"
  using get_indices_resolves [of two_channels 1 "[1, 0, 1]" 0]
    get_indices_resolves [of two_channels 1 "[0, 5, 7]" 1]
  by (simp add: two_channels_def std_to_string.simps decimal_digits_def)

text \<open>
  The claim as the spec states it fails in two places. On a wide container, with
  \<open>d = 2 ^ 32 - 1\<close>, the selector \<open>[0, -2]\<close> holds the negative entry \<open>-2\<close> and is
  accepted. And on a container of two channels the selector \<open>[0, -2]\<close> is rejected with
  a message that holds \<open>4294967294\<close>, the unsigned value of the offending entry, not the
  entry \<open>-2\<close>.
\<close>

theorem get_indices_range_counterexample:
  "sint (- 2 :: i32) = - 2
   \<and> get_indices \<lparr>k_of = 200, d_of = 4294967295, sketches_of = replicate 4294967295 ()\<rparr> [0, - 2]
       = Inr [0, 4294967294]
   \<and> get_indices two_channels [0, - 2]
       = Inl (Invalid_argument ''request for invalid dimensions >= d (2): 4294967294'')"
  by (simp add: get_indices_def static_cast_u32_def two_channels_def invalid_dimensions_def
      std_to_string.simps decimal_digits_def)

section \<open>Selectors that are out of range\<close>

lemma sketch_at_beyond:
  "well_formed c \<Longrightarrow> d_of c \<le> v \<Longrightarrow> sketch_at c (unat v) = Inl (Out_of_bounds (unat v))"
  by (simp add: sketch_at_def well_formed_def word_le_nat_alt)

text \<open>
  C10, as the code has it. For a one-element selector \<open>[v]\<close> with \<open>v\<close> negative and not
  \<open>-1\<close>, \<^verbatim>\<open>get_indices\<close> does not fail and does not expand to all channels: it returns
  the singleton of the unsigned value of \<open>v\<close>, which is \<open>v + 2 ^ 32\<close> and at least
  \<open>2 ^ 31\<close>. On a
  container of at most \<open>2 ^ 31\<close> channels that index is outside \<open>[0, d)\<close>, and the read
  of \<^verbatim>\<open>sketches_\<close> at it is reached by \<^verbatim>\<open>get_pmf\<close>, \<^verbatim>\<open>get_cdf\<close> and \<^verbatim>\<open>serialize\<close>, and by
  \<^verbatim>\<open>get_quantiles\<close> and \<^verbatim>\<open>get_ranks\<close> when there is at least one query point.
\<close>

theorem negative_selector_out_of_range:
  "sint v < 0 \<and> v \<noteq> - 1 \<longrightarrow>
     get_indices c [v] = Inr [v] \<and> uint v = sint v + 4294967296 \<and> 2147483648 \<le> v
     \<and> (well_formed c \<and> d_of c \<le> 2147483648 \<longrightarrow>
          sketch_at c (unat v) = Inl (Out_of_bounds (unat v))
          \<and> (ranks \<noteq> [] \<longrightarrow> get_quantiles E c ranks [v] = Inl (Out_of_bounds (unat v)))
          \<and> (vals \<noteq> [] \<longrightarrow> get_ranks E c vals [v] = Inl (Out_of_bounds (unat v)))
          \<and> get_pmf E c split_points [v] = Inl (Out_of_bounds (unat v))
          \<and> get_cdf E c split_points [v] = Inl (Out_of_bounds (unat v))
          \<and> serialize E c [v] = Inl (Out_of_bounds (unat v)))"
proof (intro impI, elim conjE)
  assume neg: "sint v < 0" and nall: "v \<noteq> - 1"
  have ind: "get_indices c [v] = Inr [v]"
    using nall by (simp add: get_indices_def static_cast_u32_def)
  have big: "2147483648 \<le> v" using neg by (rule negative_is_large)
  have oob: "sketch_at c (unat v) = Inl (Out_of_bounds (unat v))"
    if "well_formed c \<and> d_of c \<le> 2147483648"
    using that big sketch_at_beyond [of c v] by auto
  have q: "get_quantiles E c ranks [v] = Inl (Out_of_bounds (unat v))"
    if "well_formed c \<and> d_of c \<le> 2147483648" "ranks \<noteq> []"
    using that oob ind by (cases ranks) (simp_all add: get_quantiles_def)
  have r: "get_ranks E c vals [v] = Inl (Out_of_bounds (unat v))"
    if "well_formed c \<and> d_of c \<le> 2147483648" "vals \<noteq> []"
    using that oob ind by (cases vals) (simp_all add: get_ranks_def)
  have cast: "uint v = sint v + 4294967296"
    using neg by (simp add: sint_32_cases split: if_splits)
  show "get_indices c [v] = Inr [v] \<and> uint v = sint v + 4294967296 \<and> 2147483648 \<le> v
     \<and> (well_formed c \<and> d_of c \<le> 2147483648 \<longrightarrow>
          sketch_at c (unat v) = Inl (Out_of_bounds (unat v))
          \<and> (ranks \<noteq> [] \<longrightarrow> get_quantiles E c ranks [v] = Inl (Out_of_bounds (unat v)))
          \<and> (vals \<noteq> [] \<longrightarrow> get_ranks E c vals [v] = Inl (Out_of_bounds (unat v)))
          \<and> get_pmf E c split_points [v] = Inl (Out_of_bounds (unat v))
          \<and> get_cdf E c split_points [v] = Inl (Out_of_bounds (unat v))
          \<and> serialize E c [v] = Inl (Out_of_bounds (unat v)))"
    using ind cast big oob q r by (simp add: get_pmf_def get_cdf_def serialize_def)
qed

theorem negative_selector_out_of_range_witness:
  "sint (- 2 :: i32) < 0 \<and> (- 2 :: i32) \<noteq> - 1 \<and> well_formed two_exact \<and> d_of two_exact \<le> 2147483648
   \<and> get_indices two_exact [- 2] = Inr [4294967294]
   \<and> uint (- 2 :: i32) = 4294967294
   \<and> get_quantiles exact_kll two_exact [1 / 2] [- 2] = Inl (Out_of_bounds 4294967294)
   \<and> get_ranks exact_kll two_exact [1] [- 2] = Inl (Out_of_bounds 4294967294)
   \<and> get_pmf exact_kll two_exact [] [- 2] = Inl (Out_of_bounds 4294967294)
   \<and> get_cdf exact_kll two_exact [] [- 2] = Inl (Out_of_bounds 4294967294)
   \<and> serialize exact_kll two_exact [- 2] = Inl (Out_of_bounds 4294967294)"
  using negative_selector_out_of_range [of "- 2" two_exact "[1 / 2]" exact_kll "[1]" "[]"]
  by (simp add: two_exact_def well_formed_def)

text \<open>
  The claim as stated fails in two places. \<^verbatim>\<open>get_quantiles\<close> with no query point and the
  selector \<open>[-2]\<close> returns one empty row without reading any sketch; and on a container
  of \<open>2 ^ 32 - 1\<close> channels the index \<open>2 ^ 32 - 2\<close> that \<open>[-2]\<close> resolves to is in range,
  so that \<^verbatim>\<open>serialize\<close> returns the blob of that channel.
\<close>

theorem negative_selector_counterexample:
  "sint (- 2 :: i32) < 0 \<and> (- 2 :: i32) \<noteq> - 1
   \<and> get_quantiles exact_kll two_exact [] [- 2] = Inr [[]]
   \<and> get_indices wide_container [- 2] = Inr [4294967294]
   \<and> (4294967294 :: u32) < d_of wide_container
   \<and> serialize exact_kll wide_container [- 2] = Inr [[200, 0, 0, 0]]"
  by (simp add: get_quantiles_def get_indices_def static_cast_u32_def two_exact_def
      wide_container_def serialize_def sketch_at_def exact_kll_def ex_serialize_def)

section \<open>Collapse\<close>

lemmas exact_kll_simps =
  exact_kll_def ex_update_def ex_merge_def ex_get_n_def ex_get_min_item_def ex_get_max_item_def

text \<open>
  C1. \<^verbatim>\<open>collapse\<close> does not resolve its selector: for every one-element selector
  \<open>[v]\<close>, the sentinel \<open>[-1]\<close> included, it merges channel 0 alone into the fresh sketch.
  In scenario 5 of the spec the result therefore holds the two items of channel 0, with
  \<open>get_n = 2\<close>, minimum 1 and maximum 3, where the claim (and the documentation of the
  binding, "default: all sketches") expects \<open>get_n = 4\<close>, minimum 1 and maximum 4.
\<close>

theorem collapse_reads_leading_channels:
  "collapse E c [v] =
     (case sk_new E (k_of c) of
        Inl e \<Rightarrow> Inl e
      | Inr result \<Rightarrow>
          (case sketch_at c 0 of Inl e \<Rightarrow> Inl e | Inr s \<Rightarrow> Inr (sk_merge E result s)))
   \<and> scenario_collapse = Inr \<lparr>ex_k = 200, ex_items = [1, 3]\<rparr>
   \<and> sk_get_n exact_kll \<lparr>ex_k = 200, ex_items = [1, 3]\<rparr> = 2
   \<and> sk_get_min_item exact_kll \<lparr>ex_k = 200, ex_items = [1, 3]\<rparr> = Inr 1
   \<and> sk_get_max_item exact_kll \<lparr>ex_k = 200, ex_items = [1, 3]\<rparr> = Inr 3"
proof (intro conjI)
  show "collapse E c [v] =
     (case sk_new E (k_of c) of
        Inl e \<Rightarrow> Inl e
      | Inr result \<Rightarrow>
          (case sketch_at c 0 of Inl e \<Rightarrow> Inl e | Inr s \<Rightarrow> Inr (sk_merge E result s)))"
    by (simp add: collapse_def split: sum.splits)
  show "scenario_collapse = Inr \<lparr>ex_k = 200, ex_items = [1, 3]\<rparr>"
    by (simp add: scenario_collapse_def new_vector_of_kll_sketches_def update_def
        update_2d_C_def update_sketch_def check_order_def matrix_def collapse_def
        sketch_at_def exact_kll_simps upt_conv_Cons)
qed (simp_all add: exact_kll_simps)

section \<open>The loops over channels and rows\<close>

lemma fold_pointwise_length:
  "length (fold (\<lambda>i S. S[i := g i (S ! i)]) ns S) = length S"
  by (induction ns arbitrary: S) simp_all

lemma fold_pointwise_nth:
  "n \<le> length S \<Longrightarrow> j < length S
   \<Longrightarrow> fold (\<lambda>i S. S[i := g i (S ! i)]) [0..<n] S ! j = (if j < n then g j (S ! j) else S ! j)"
proof (induction n arbitrary: j)
  case 0
  then show ?case by simp
next
  case (Suc n)
  let ?F = "fold (\<lambda>i S. S[i := g i (S ! i)]) [0..<n] S"
  have len: "length ?F = length S" by (rule fold_pointwise_length)
  have ih: "\<And>j. j < length S \<Longrightarrow> ?F ! j = (if j < n then g j (S ! j) else S ! j)"
    using Suc by simp
  have "fold (\<lambda>i S. S[i := g i (S ! i)]) [0..<Suc n] S = ?F[n := g n (?F ! n)]"
    by simp
  moreover have "?F[n := g n (?F ! n)] ! j = (if j < Suc n then g j (S ! j) else S ! j)"
  proof (cases "j = n")
    case True
    then show ?thesis using Suc.prems len ih [of n] by simp
  next
    case False
    then show ?thesis using Suc.prems len ih [of j] by auto
  qed
  ultimately show ?case by simp
qed

lemma fold_same_index:
  "j < length S \<Longrightarrow> fold (\<lambda>i S. S[j := h i (S ! j)]) ns S = S[j := fold h ns (S ! j)]"
  by (induction ns arbitrary: S) simp_all

lemma update_1d_length: "length (update_1d u items d S) = length S"
  unfolding update_1d_def update_sketch_def by (rule fold_pointwise_length)

lemma update_1d_nth:
  "length S = d \<Longrightarrow> j < d \<Longrightarrow> update_1d u items d S ! j = u (nd_at items [j]) (S ! j)"
  unfolding update_1d_def update_sketch_def
  using fold_pointwise_nth [of d S j "\<lambda>i. u (nd_at items [i])"] by simp

lemma update_2d_F_pointwise:
  "m \<le> length S \<Longrightarrow>
   fold (\<lambda>j. fold (\<lambda>i. update_sketch u (nd_at items [i, j]) j) [0..<n]) [0..<m] S
   = fold (\<lambda>j S. S[j := fold (\<lambda>i. u (nd_at items [i, j])) [0..<n] (S ! j)]) [0..<m] S"
proof (induction m)
  case 0
  then show ?case by simp
next
  case (Suc m)
  let ?G = "fold (\<lambda>j S. S[j := fold (\<lambda>i. u (nd_at items [i, j])) [0..<n] (S ! j)]) [0..<m] S"
  have len: "length ?G = length S" by (rule fold_pointwise_length)
  then have "m < length ?G" using Suc.prems by simp
  then have "fold (\<lambda>i. update_sketch u (nd_at items [i, m]) m) [0..<n] ?G
             = ?G[m := fold (\<lambda>i. u (nd_at items [i, m])) [0..<n] (?G ! m)]"
    unfolding update_sketch_def by (rule fold_same_index)
  then show ?case using Suc by simp
qed

lemma update_2d_F_length: "length S = d \<Longrightarrow> length (update_2d_F u items d S) = length S"
  unfolding update_2d_F_def
  using fold_pointwise_length
    [of "\<lambda>j. fold (\<lambda>i. u (nd_at items [i, j])) [0..<nd_shape items ! 0]" "[0..<d]" S]
  by (simp add: update_2d_F_pointwise)

lemma update_2d_F_nth:
  "length S = d \<Longrightarrow> j < d \<Longrightarrow>
   update_2d_F u items d S ! j
   = fold (\<lambda>i. u (nd_at items [i, j])) [0..<nd_shape items ! 0] (S ! j)"
  unfolding update_2d_F_def
  using fold_pointwise_nth [of d S j "\<lambda>j. fold (\<lambda>i. u (nd_at items [i, j])) [0..<nd_shape items ! 0]"]
  by (simp add: update_2d_F_pointwise)

lemma update_row_length:
  "length (fold (\<lambda>j. update_sketch u (f j) j) [0..<d] S) = length S"
  unfolding update_sketch_def by (rule fold_pointwise_length)

lemma update_row_nth:
  "length S = d \<Longrightarrow> j < d \<Longrightarrow> fold (\<lambda>j. update_sketch u (f j) j) [0..<d] S ! j = u (f j) (S ! j)"
  unfolding update_sketch_def
  using fold_pointwise_nth [of d S j "\<lambda>j. u (f j)"] by simp

lemma update_rows_C:
  "length S = d \<Longrightarrow>
   length (fold (\<lambda>i. fold (\<lambda>j. update_sketch u (nd_at items [i, j]) j) [0..<d]) [0..<n] S) = d
   \<and> (\<forall>j<d. fold (\<lambda>i. fold (\<lambda>j. update_sketch u (nd_at items [i, j]) j) [0..<d]) [0..<n] S ! j
            = fold (\<lambda>i. u (nd_at items [i, j])) [0..<n] (S ! j))"
proof (induction n)
  case 0
  then show ?case by simp
next
  case (Suc n)
  let ?R = "fold (\<lambda>i. fold (\<lambda>j. update_sketch u (nd_at items [i, j]) j) [0..<d]) [0..<n] S"
  have len: "length ?R = d" and ih: "\<forall>j<d. ?R ! j = fold (\<lambda>i. u (nd_at items [i, j])) [0..<n] (S ! j)"
    using Suc by simp_all
  have step: "fold (\<lambda>i. fold (\<lambda>j. update_sketch u (nd_at items [i, j]) j) [0..<d]) [0..<Suc n] S
        = fold (\<lambda>j. update_sketch u (nd_at items [n, j]) j) [0..<d] ?R"
    by simp
  show ?case
    unfolding step
    using len ih update_row_nth [of ?R d _ u "\<lambda>j. nd_at items [n, j]"]
    by (simp add: update_row_length)
qed

lemma update_2d_C_length: "length S = d \<Longrightarrow> length (update_2d_C u items d S) = length S"
  unfolding update_2d_C_def using update_rows_C [of S d u items] by simp

lemma update_2d_C_nth:
  "length S = d \<Longrightarrow> j < d \<Longrightarrow>
   update_2d_C u items d S ! j
   = fold (\<lambda>i. u (nd_at items [i, j])) [0..<nd_shape items ! 0] (S ! j)"
  unfolding update_2d_C_def using update_rows_C [of S d u items] by simp

lemma update_2d_orders_agree:
  "length S = d \<Longrightarrow> update_2d_F u items d S = update_2d_C u items d S"
  by (rule nth_equalityI)
     (simp_all add: update_2d_F_length update_2d_C_length update_2d_F_nth update_2d_C_nth)

lemma fold_record: "fold (\<lambda>i tr. tr @ [f i]) ns tr = tr @ map f ns"
  by (induction ns arbitrary: tr) simp_all

lemma fold_counts:
  fixes count :: "'s \<Rightarrow> u64"
  assumes "\<And>i s. i \<in> set ns \<Longrightarrow> count (u (f i) s) = count s + 1"
  shows "count (fold (\<lambda>i. u (f i)) ns s) = count s + of_nat (length ns)"
  using assms by (induction ns arbitrary: s) simp_all

section \<open>Rejected calls\<close>

text \<open>
  C3. Each of these calls fails with invalid-argument and returns the container as it
  was: construction with \<open>d = 0\<close> (no container exists afterwards); \<^verbatim>\<open>update\<close> with a
  buffer whose last extent is not \<open>d\<close>; \<^verbatim>\<open>update\<close> with a buffer of more than two
  dimensions (whose last extent is \<open>d\<close>: otherwise the previous case applies);
  \<^verbatim>\<open>deserialize\<close> with \<open>idx \<ge> d\<close>; and \<^verbatim>\<open>merge\<close> with a container of another width,
  where the result does not depend on any sketch of either container.
\<close>

theorem rejections_leave_container:
  "new_vector_of_kll_sketches E k 0 = Inl (Invalid_argument ''D must be >= 1: 0'')
   \<and> (nd_shape items \<noteq> [] \<and> nd_shape items ! (length (nd_shape items) - 1) \<noteq> unat (d_of c)
        \<longrightarrow> update E items c =
            (Some (Invalid_argument (''input data must have rows with  ''
                     @ std_to_string (unat (d_of c)) @ '' elements. Found: ''
                     @ std_to_string (nd_shape items ! (length (nd_shape items) - 1)))), c))
   \<and> (2 < length (nd_shape items)
          \<and> nd_shape items ! (length (nd_shape items) - 1) = unat (d_of c)
        \<longrightarrow> update E items c =
            (Some (Invalid_argument (''Update input must be 2 or fewer dimensions : ''
                     @ std_to_string (length (nd_shape items)))), c))
   \<and> (d_of c \<le> idx
        \<longrightarrow> deserialize E skStr sk_bytes idx c =
            (Some (Invalid_argument (''request for invalid dimensions >= d (''
                     @ std_to_string (unat (d_of c)) @ ''): '' @ std_to_string (unat idx))), c))
   \<and> (d_of c \<noteq> d_of other
        \<longrightarrow> merge E c other =
            (Some (Invalid_argument (''Must have same number of dimensions to merge: ''
                     @ std_to_string (unat (d_of c)) @ '' vs ''
                     @ std_to_string (unat (d_of other)))), c))"
  by (simp add: new_vector_of_kll_sketches_def update_def deserialize_def merge_def get_d_def
      invalid_dimensions_def std_to_string.simps decimal_digits_def Let_def)

theorem rejections_leave_container_witness:
  "update exact_kll (vector [1, 2, 3]) two_exact =
     (Some (Invalid_argument ''input data must have rows with  2 elements. Found: 3''), two_exact)
   \<and> update exact_kll three_dims two_exact =
     (Some (Invalid_argument ''Update input must be 2 or fewer dimensions : 3''), two_exact)
   \<and> deserialize exact_kll ''abcd'' [200, 0, 0, 0] 2 two_exact =
     (Some (Invalid_argument ''request for invalid dimensions >= d (2): 2''), two_exact)
   \<and> merge exact_kll two_exact three_exact =
     (Some (Invalid_argument ''Must have same number of dimensions to merge: 2 vs 3''), two_exact)"
  using rejections_leave_container
      [where E = exact_kll and items = "vector [1, 2, 3]" and c = two_exact and idx = 2
         and skStr = "''abcd''" and sk_bytes = "[200, 0, 0, 0]" and other = three_exact]
    rejections_leave_container
      [where E = exact_kll and items = three_dims and c = two_exact and idx = 2
         and skStr = "''abcd''" and sk_bytes = "[200, 0, 0, 0]" and other = three_exact]
  by (simp add: vector_def three_dims_def two_exact_def three_exact_def
      std_to_string.simps decimal_digits_def)

section \<open>Merge\<close>

lemma get_n_nth:
  "j < unat (d_of c) \<Longrightarrow> get_n E c ! j = sk_get_n E (sketches_of c ! j)"
  by (simp add: get_n_def)

lemma merge_accepts:
  assumes "well_formed c" "d_of c = d_of other"
  shows "fst (merge E c other) = None"
    and "well_formed (snd (merge E c other))"
    and "d_of (snd (merge E c other)) = d_of c"
    and "k_of (snd (merge E c other)) = k_of c"
    and "\<And>i. i < unat (d_of c) \<Longrightarrow>
           sketches_of (snd (merge E c other)) ! i
           = sk_merge E (sketches_of c ! i) (sketches_of other ! i)"
proof -
  let ?g = "\<lambda>i s. sk_merge E s (sketches_of other ! i)"
  have eq: "merge E c other =
      (None, c\<lparr>sketches_of := fold (\<lambda>i S. S[i := ?g i (S ! i)]) [0..<unat (d_of c)] (sketches_of c)\<rparr>)"
    using assms by (simp add: merge_def get_d_def)
  show "fst (merge E c other) = None" by (simp add: eq)
  show "well_formed (snd (merge E c other))"
    using assms(1) fold_pointwise_length [of ?g "[0..<unat (d_of c)]" "sketches_of c"]
    by (simp add: eq well_formed_def)
  show "d_of (snd (merge E c other)) = d_of c" by (simp add: eq)
  show "k_of (snd (merge E c other)) = k_of c" by (simp add: eq)
  show "sketches_of (snd (merge E c other)) ! i
        = sk_merge E (sketches_of c ! i) (sketches_of other ! i)" if "i < unat (d_of c)" for i
    using that assms(1)
      fold_pointwise_nth [of "unat (d_of c)" "sketches_of c" i ?g]
    by (simp add: eq well_formed_def)
qed

text \<open>
  C4. For two distinct container objects \<open>a\<close> and \<open>b\<close> of equal width, \<^verbatim>\<open>a.merge(b)\<close>
  succeeds, replaces every sketch \<open>S[i]\<close> of \<open>a\<close> by \<open>S[i].merge(O[i])\<close> and leaves \<open>b\<close>
  and every other object as they were, so \<open>b.get_n()\<close> is unchanged. Where the engine's
  merge adds the counts of the two sketches, \<open>a.get_n()[i]\<close> afterwards is the sum of the
  two counts before.
\<close>

theorem merge_adds_counts:
  "a \<noteq> b \<and> well_formed (h a) \<and> well_formed (h b) \<and> d_of (h a) = d_of (h b) \<longrightarrow>
     fst (merge_objects E a b h) = None
     \<and> (\<forall>x. x \<noteq> a \<longrightarrow> snd (merge_objects E a b h) x = h x)
     \<and> snd (merge_objects E a b h) b = h b
     \<and> get_n E (snd (merge_objects E a b h) b) = get_n E (h b)
     \<and> well_formed (snd (merge_objects E a b h) a)
     \<and> d_of (snd (merge_objects E a b h) a) = d_of (h a)
     \<and> (\<forall>i<unat (d_of (h a)).
           sketches_of (snd (merge_objects E a b h) a) ! i
           = sk_merge E (sketches_of (h a) ! i) (sketches_of (h b) ! i))
     \<and> ((\<forall>i<unat (d_of (h a)).
            sk_get_n E (sk_merge E (sketches_of (h a) ! i) (sketches_of (h b) ! i))
            = sk_get_n E (sketches_of (h a) ! i) + sk_get_n E (sketches_of (h b) ! i))
         \<longrightarrow> (\<forall>i<unat (d_of (h a)).
                get_n E (snd (merge_objects E a b h) a) ! i = get_n E (h a) ! i + get_n E (h b) ! i))"
proof (intro impI, elim conjE)
  assume ab: "a \<noteq> b" and wa: "well_formed (h a)" and wb: "well_formed (h b)" and d: "d_of (h a) = d_of (h b)"
  let ?m = "merge E (h a) (h b)"
  have obj: "merge_objects E a b h = (fst ?m, h(a := snd ?m))"
    by (simp add: merge_objects_def split: prod.splits)
  note acc = merge_accepts [where E = E, OF wa d]
  have sk: "\<forall>i<unat (d_of (h a)).
           sketches_of (snd (merge_objects E a b h) a) ! i
           = sk_merge E (sketches_of (h a) ! i) (sketches_of (h b) ! i)"
    using acc(5) by (simp add: obj)
  have da: "d_of (snd (merge_objects E a b h) a) = d_of (h a)"
    using acc(3) by (simp add: obj)
  have n: "\<forall>i<unat (d_of (h a)).
                get_n E (snd (merge_objects E a b h) a) ! i = get_n E (h a) ! i + get_n E (h b) ! i"
    if "\<forall>i<unat (d_of (h a)).
            sk_get_n E (sk_merge E (sketches_of (h a) ! i) (sketches_of (h b) ! i))
            = sk_get_n E (sketches_of (h a) ! i) + sk_get_n E (sketches_of (h b) ! i)"
    using that sk da d by (simp add: get_n_nth)
  show "fst (merge_objects E a b h) = None
     \<and> (\<forall>x. x \<noteq> a \<longrightarrow> snd (merge_objects E a b h) x = h x)
     \<and> snd (merge_objects E a b h) b = h b
     \<and> get_n E (snd (merge_objects E a b h) b) = get_n E (h b)
     \<and> well_formed (snd (merge_objects E a b h) a)
     \<and> d_of (snd (merge_objects E a b h) a) = d_of (h a)
     \<and> (\<forall>i<unat (d_of (h a)).
           sketches_of (snd (merge_objects E a b h) a) ! i
           = sk_merge E (sketches_of (h a) ! i) (sketches_of (h b) ! i))
     \<and> ((\<forall>i<unat (d_of (h a)).
            sk_get_n E (sk_merge E (sketches_of (h a) ! i) (sketches_of (h b) ! i))
            = sk_get_n E (sketches_of (h a) ! i) + sk_get_n E (sketches_of (h b) ! i))
         \<longrightarrow> (\<forall>i<unat (d_of (h a)).
                get_n E (snd (merge_objects E a b h) a) ! i = get_n E (h a) ! i + get_n E (h b) ! i))"
    using ab acc(1) acc(2) sk da n by (simp add: obj)
qed

theorem merge_adds_counts_witness:
  "(0::nat) \<noteq> 1 \<and> well_formed (two_objects 0) \<and> well_formed (two_objects 1)
   \<and> d_of (two_objects 0) = d_of (two_objects 1)
   \<and> get_n exact_kll (two_objects 0) = [2, 2]
   \<and> get_n exact_kll (two_objects 1) = [1, 3]
   \<and> fst (merge_objects exact_kll 0 1 two_objects) = None
   \<and> snd (merge_objects exact_kll 0 1 two_objects) 1 = two_other
   \<and> get_n exact_kll (snd (merge_objects exact_kll 0 1 two_objects) 0) ! 0 = 3
   \<and> get_n exact_kll (snd (merge_objects exact_kll 0 1 two_objects) 0) ! 1 = 5"
proof -
  have h: "(0::nat) \<noteq> 1 \<and> well_formed (two_objects 0) \<and> well_formed (two_objects 1)
           \<and> d_of (two_objects 0) = d_of (two_objects 1)"
    by (simp add: two_objects_def two_exact_def two_other_def well_formed_def)
  have d: "unat (d_of (two_objects 0)) = Suc (Suc 0)"
    by (simp add: two_objects_def two_exact_def)
  have e: "\<forall>i<unat (d_of (two_objects 0)).
            sk_get_n exact_kll (sk_merge exact_kll (sketches_of (two_objects 0) ! i)
                                                  (sketches_of (two_objects 1) ! i))
            = sk_get_n exact_kll (sketches_of (two_objects 0) ! i)
              + sk_get_n exact_kll (sketches_of (two_objects 1) ! i)"
    unfolding d
    by (simp add: All_less_Suc two_objects_def two_exact_def two_other_def exact_kll_simps)
  have n: "get_n exact_kll (two_objects 0) = [2, 2]" "get_n exact_kll (two_objects 1) = [1, 3]"
    by (simp_all add: get_n_def two_objects_def two_exact_def two_other_def exact_kll_simps
        upt_conv_Cons)
  from merge_adds_counts [of 0 1 two_objects exact_kll] h e
  have "fst (merge_objects exact_kll 0 1 two_objects) = None"
    and "snd (merge_objects exact_kll 0 1 two_objects) 1 = two_objects 1"
    and "\<forall>i<unat (d_of (two_objects 0)).
           get_n exact_kll (snd (merge_objects exact_kll 0 1 two_objects) 0) ! i
           = get_n exact_kll (two_objects 0) ! i + get_n exact_kll (two_objects 1) ! i"
    by blast+
  then show ?thesis using h n unfolding d by (simp add: All_less_Suc two_objects_def)
qed


section \<open>Update\<close>

lemma update_2d_accepts:
  assumes "well_formed c" "nd_shape items = [n, unat (d_of c)]"
  shows "fst (update E items c) = None"
    and "well_formed (snd (update E items c))"
    and "d_of (snd (update E items c)) = d_of c"
    and "\<And>j. j < unat (d_of c) \<Longrightarrow>
           sketches_of (snd (update E items c)) ! j
           = fold (\<lambda>i. sk_update E (nd_at items [i, j])) [0..<n] (sketches_of c ! j)"
proof -
  let ?d = "unat (d_of c)"
  have len: "length (sketches_of c) = ?d" using assms(1) by (simp add: well_formed_def)
  have n: "nd_shape items ! 0 = n" using assms(2) by simp
  let ?S' = "if check_order items = CHR ''F''
             then update_2d_F (sk_update E) items ?d (sketches_of c)
             else update_2d_C (sk_update E) items ?d (sketches_of c)"
  have S': "update E items c = (None, c\<lparr>sketches_of := ?S'\<rparr>)"
    using assms(2) by (simp add: update_def)
  have l': "length ?S' = ?d"
    using len by (simp add: update_2d_F_length update_2d_C_length)
  have n': "?S' ! j = fold (\<lambda>i. sk_update E (nd_at items [i, j])) [0..<n] (sketches_of c ! j)"
    if "j < ?d" for j
    using that len n by (simp add: update_2d_F_nth update_2d_C_nth)
  show "fst (update E items c) = None" by (simp add: S')
  show "well_formed (snd (update E items c))" using l' by (simp add: S' well_formed_def)
  show "d_of (snd (update E items c)) = d_of c" by (simp add: S')
  show "sketches_of (snd (update E items c)) ! j
           = fold (\<lambda>i. sk_update E (nd_at items [i, j])) [0..<n] (sketches_of c ! j)"
    if "j < unat (d_of c)" for j
    using n' [OF that] by (simp add: S')
qed

lemma update_1d_accepts:
  assumes "well_formed c" "nd_shape items = [unat (d_of c)]"
  shows "fst (update E items c) = None"
    and "well_formed (snd (update E items c))"
    and "d_of (snd (update E items c)) = d_of c"
    and "\<And>i. i < unat (d_of c) \<Longrightarrow>
           sketches_of (snd (update E items c)) ! i
           = sk_update E (nd_at items [i]) (sketches_of c ! i)"
proof -
  let ?d = "unat (d_of c)"
  have len: "length (sketches_of c) = ?d" using assms(1) by (simp add: well_formed_def)
  have eq: "update E items c
            = (None, c\<lparr>sketches_of := update_1d (sk_update E) items ?d (sketches_of c)\<rparr>)"
    using assms(2) by (simp add: update_def)
  show "fst (update E items c) = None" by (simp add: eq)
  show "well_formed (snd (update E items c))"
    using len by (simp add: eq well_formed_def update_1d_length)
  show "d_of (snd (update E items c)) = d_of c" by (simp add: eq)
  show "sketches_of (snd (update E items c)) ! i
           = sk_update E (nd_at items [i]) (sketches_of c ! i)" if "i < unat (d_of c)" for i
    using that len by (simp add: eq update_1d_nth)
qed

text \<open>
  C6. On a well-formed container of width \<open>d\<close>, \<^verbatim>\<open>update\<close> with a 2-D buffer of shape
  \<open>(n, d)\<close> (with \<open>n\<close> below \<open>2 ^ 32\<close>, the range of the row counter) succeeds and, in either traversal order, leaves in every channel \<open>j\<close> the
  sketch that results from \<open>n\<close> calls of the engine's update on \<open>S[j]\<close>, one per row
  \<open>i\<close> in row order, with the value \<open>items(i, j)\<close>. Where the engine counts each of these
  values, every per-channel \<open>get_n\<close> grows by exactly \<open>n\<close>. With a 1-D buffer of length
  \<open>d\<close>, each \<open>S[i]\<close> receives exactly one update, with \<open>items(i)\<close>.
\<close>

theorem update_counts_rows:
  "(well_formed c \<and> nd_shape items = [n, unat (d_of c)] \<and> n < 4294967296 \<longrightarrow>
      fst (update E items c) = None
      \<and> (\<forall>j<unat (d_of c).
            sketches_of (snd (update E items c)) ! j
            = fold (\<lambda>i. sk_update E (nd_at items [i, j])) [0..<n] (sketches_of c ! j))
      \<and> ((\<forall>i<n. \<forall>j<unat (d_of c). \<forall>s.
             sk_get_n E (sk_update E (nd_at items [i, j]) s) = sk_get_n E s + 1)
          \<longrightarrow> (\<forall>j<unat (d_of c).
                 get_n E (snd (update E items c)) ! j = get_n E c ! j + of_nat n)))
   \<and> (well_formed c \<and> nd_shape items = [unat (d_of c)] \<longrightarrow>
      fst (update E items c) = None
      \<and> (\<forall>i<unat (d_of c).
            sketches_of (snd (update E items c)) ! i
            = sk_update E (nd_at items [i]) (sketches_of c ! i)))"
proof -
  have two: "fst (update E items c) = None
      \<and> (\<forall>j<unat (d_of c).
            sketches_of (snd (update E items c)) ! j
            = fold (\<lambda>i. sk_update E (nd_at items [i, j])) [0..<n] (sketches_of c ! j))
      \<and> ((\<forall>i<n. \<forall>j<unat (d_of c). \<forall>s.
             sk_get_n E (sk_update E (nd_at items [i, j]) s) = sk_get_n E s + 1)
          \<longrightarrow> (\<forall>j<unat (d_of c).
                 get_n E (snd (update E items c)) ! j = get_n E c ! j + of_nat n))"
    if w: "well_formed c" and sh: "nd_shape items = [n, unat (d_of c)]"
  proof -
    note acc = update_2d_accepts [where E = E, OF w sh]
    have cnt: "\<forall>j<unat (d_of c). get_n E (snd (update E items c)) ! j = get_n E c ! j + of_nat n"
      if h: "\<forall>i<n. \<forall>j<unat (d_of c). \<forall>s.
               sk_get_n E (sk_update E (nd_at items [i, j]) s) = sk_get_n E s + 1"
    proof (intro allI impI)
      fix j assume j: "j < unat (d_of c)"
      have "sk_get_n E (fold (\<lambda>i. sk_update E (nd_at items [i, j])) [0..<n] (sketches_of c ! j))
            = sk_get_n E (sketches_of c ! j) + of_nat (length [0..<n])"
        using h j
          fold_counts [where ns = "[0..<n]" and count = "sk_get_n E" and u = "sk_update E"
            and f = "\<lambda>i. nd_at items [i, j]" and s = "sketches_of c ! j"]
        by simp
      then show "get_n E (snd (update E items c)) ! j = get_n E c ! j + of_nat n"
        using j acc(3) acc(4) [OF j] by (simp add: get_n_nth)
    qed
    show ?thesis using acc(1) acc(4) cnt by blast
  qed
  have one: "fst (update E items c) = None
      \<and> (\<forall>i<unat (d_of c).
            sketches_of (snd (update E items c)) ! i
            = sk_update E (nd_at items [i]) (sketches_of c ! i))"
    if w: "well_formed c" and sh: "nd_shape items = [unat (d_of c)]"
    using update_1d_accepts(1) [where E = E, OF w sh] update_1d_accepts(4) [where E = E, OF w sh]
    by blast
  show ?thesis using two one by blast
qed

theorem update_counts_rows_witness:
  "well_formed two_exact \<and> nd_shape (three_rows CHR ''F'') = [3, unat (d_of two_exact)]
   \<and> nd_shape (vector [7, 8 :: rat]) = [unat (d_of two_exact)]
   \<and> get_n exact_kll two_exact = [2, 2]
   \<and> fst (update exact_kll (three_rows CHR ''F'') two_exact) = None
   \<and> get_n exact_kll (snd (update exact_kll (three_rows CHR ''F'') two_exact)) ! 0 = 5
   \<and> get_n exact_kll (snd (update exact_kll (three_rows CHR ''F'') two_exact)) ! 1 = 5
   \<and> sketches_of (snd (update exact_kll (three_rows CHR ''F'') two_exact)) ! 1
       = \<lparr>ex_k = 200, ex_items = [2, 4, 20, 40, 60]\<rparr>
   \<and> fst (update exact_kll (vector [7, 8]) two_exact) = None
   \<and> sketches_of (snd (update exact_kll (vector [7, 8]) two_exact)) ! 0
       = \<lparr>ex_k = 200, ex_items = [1, 3, 7]\<rparr>
   \<and> sketches_of (snd (update exact_kll (vector [7, 8]) two_exact)) ! 1
       = \<lparr>ex_k = 200, ex_items = [2, 4, 8]\<rparr>"
proof -
  have d: "unat (d_of two_exact) = Suc (Suc 0)" by (simp add: two_exact_def)
  have h: "well_formed two_exact"
    "nd_shape (three_rows CHR ''F'') = [3, unat (d_of two_exact)]"
    "nd_shape (vector [7, 8 :: rat]) = [unat (d_of two_exact)]"
    "(3::nat) < 4294967296"
    by (simp_all add: well_formed_def two_exact_def three_rows_def matrix_def vector_def)
  have e: "\<forall>i<3. \<forall>j<unat (d_of two_exact). \<forall>s.
             sk_get_n exact_kll (sk_update exact_kll (nd_at (three_rows CHR ''F'') [i, j]) s)
             = sk_get_n exact_kll s + 1"
    by (simp add: exact_kll_simps)
  have n: "get_n exact_kll two_exact = [2, 2]"
    by (simp add: get_n_def two_exact_def exact_kll_simps upt_conv_Cons)
  from update_counts_rows [of two_exact "three_rows CHR ''F''" 3 exact_kll] h e
  have r2: "fst (update exact_kll (three_rows CHR ''F'') two_exact) = None"
    "\<forall>j<unat (d_of two_exact).
        sketches_of (snd (update exact_kll (three_rows CHR ''F'') two_exact)) ! j
        = fold (\<lambda>i. sk_update exact_kll (nd_at (three_rows CHR ''F'') [i, j])) [0..<3]
            (sketches_of two_exact ! j)"
    "\<forall>j<unat (d_of two_exact).
        get_n exact_kll (snd (update exact_kll (three_rows CHR ''F'') two_exact)) ! j
        = get_n exact_kll two_exact ! j + of_nat 3"
    by blast+
  from update_counts_rows [of two_exact "vector [7, 8]" _ exact_kll] h
  have r1: "fst (update exact_kll (vector [7, 8]) two_exact) = None"
    "\<forall>i<unat (d_of two_exact).
        sketches_of (snd (update exact_kll (vector [7, 8]) two_exact)) ! i
        = sk_update exact_kll (nd_at (vector [7, 8]) [i]) (sketches_of two_exact ! i)"
    by blast+
  have s1: "sketches_of (snd (update exact_kll (three_rows CHR ''F'') two_exact)) ! 1
       = \<lparr>ex_k = 200, ex_items = [2, 4, 20, 40, 60]\<rparr>"
    using r2(2) unfolding d
    by (simp add: All_less_Suc three_rows_def matrix_def two_exact_def exact_kll_simps
        upt_conv_Cons)
  have c: "get_n exact_kll (snd (update exact_kll (three_rows CHR ''F'') two_exact)) ! 0 = 5"
    "get_n exact_kll (snd (update exact_kll (three_rows CHR ''F'') two_exact)) ! 1 = 5"
    using r2(3) unfolding d n by (simp_all add: All_less_Suc)
  have v: "sketches_of (snd (update exact_kll (vector [7, 8]) two_exact)) ! 0
       = \<lparr>ex_k = 200, ex_items = [1, 3, 7]\<rparr>"
    "sketches_of (snd (update exact_kll (vector [7, 8]) two_exact)) ! 1
       = \<lparr>ex_k = 200, ex_items = [2, 4, 8]\<rparr>"
    using r1(2) unfolding d
    by (simp_all add: All_less_Suc vector_def two_exact_def exact_kll_simps)
  show ?thesis using h n r2(1) r1(1) s1 c v by simp
qed

text \<open>
  C7. The column-major traversal (outer loop over the channel) and the row-major
  traversal (outer loop over the row) of the same 2-D values (of fewer than \<open>2 ^ 32\<close>
  rows, the range of the row counter) leave the same vector of
  sketches, whatever the engine's update does to one sketch. With an update that records
  its argument, each channel \<open>j\<close> records in both orders the values \<open>items(0, j)\<close>, ...,
  \<open>items(n - 1, j)\<close>: the same multiset, and even the same sequence.
\<close>

theorem update_orders_same_values:
  "(length S = d \<and> nd_shape items ! 0 < 4294967296 \<longrightarrow>
      update_2d_F u items d S = update_2d_C u items d S)
   \<and> (j < d \<and> nd_shape items ! 0 < 4294967296 \<longrightarrow>
        update_2d_F (\<lambda>v tr. tr @ [v]) items d (replicate d []) ! j
          = map (\<lambda>i. nd_at items [i, j]) [0..<nd_shape items ! 0]
        \<and> update_2d_C (\<lambda>v tr. tr @ [v]) items d (replicate d []) ! j
          = map (\<lambda>i. nd_at items [i, j]) [0..<nd_shape items ! 0]
        \<and> mset (update_2d_F (\<lambda>v tr. tr @ [v]) items d (replicate d []) ! j)
          = mset (update_2d_C (\<lambda>v tr. tr @ [v]) items d (replicate d []) ! j))"
proof -
  have same: "update_2d_F u items d S = update_2d_C u items d S" if "length S = d"
    using that by (rule update_2d_orders_agree)
  have F: "update_2d_F (\<lambda>v tr. tr @ [v]) items d (replicate d []) ! j
          = map (\<lambda>i. nd_at items [i, j]) [0..<nd_shape items ! 0]" if "j < d"
    using that by (simp add: update_2d_F_nth fold_record)
  have C: "update_2d_C (\<lambda>v tr. tr @ [v]) items d (replicate d []) ! j
          = map (\<lambda>i. nd_at items [i, j]) [0..<nd_shape items ! 0]" if "j < d"
    using that by (simp add: update_2d_C_nth fold_record)
  have M: "mset (update_2d_F (\<lambda>v tr. tr @ [v]) items d (replicate d []) ! j)
          = mset (update_2d_C (\<lambda>v tr. tr @ [v]) items d (replicate d []) ! j)" if "j < d"
    using that by (simp add: F C)
  show ?thesis using same F C M by blast
qed

theorem update_orders_same_values_witness:
  "length (sketches_of two_exact) = 2
   \<and> update_2d_F ex_update (three_rows CHR ''F'') 2 (sketches_of two_exact)
       = update_2d_C ex_update (three_rows CHR ''F'') 2 (sketches_of two_exact)
   \<and> (1::nat) < 2 \<and> nd_shape (three_rows CHR ''F'') ! 0 < 4294967296
   \<and> update_2d_F (\<lambda>v tr. tr @ [v]) (three_rows CHR ''F'') 2 (replicate 2 []) ! 1 = [20, 40, 60]
   \<and> update_2d_C (\<lambda>v tr. tr @ [v]) (three_rows CHR ''F'') 2 (replicate 2 []) ! 1 = [20, 40, 60]
   \<and> mset (update_2d_F (\<lambda>v tr. tr @ [v]) (three_rows CHR ''F'') 2 (replicate 2 []) ! 1)
       = mset (update_2d_C (\<lambda>v tr. tr @ [v]) (three_rows CHR ''F'') 2 (replicate 2 []) ! 1)"
  using update_orders_same_values
    [where S = "sketches_of two_exact" and d = 2 and u = ex_update
       and items = "three_rows CHR ''F''" and j = 1]
  by (simp add: two_exact_def three_rows_def matrix_def upt_conv_Cons)


section \<open>Binary input\<close>

lemma less_not_all_ones: "(idx::32 word) < d \<Longrightarrow> idx \<noteq> - 1"
  using word_order.extremum [of d] by auto

lemma serialize_one_channel:
  assumes "well_formed c" "idx < d_of c"
  shows "serialize E c [idx] = Inr [sk_serialize E (sketches_of c ! unat idx)]"
proof -
  have "idx \<noteq> - 1" using assms(2) by (rule less_not_all_ones)
  then have "get_indices c [idx] = Inr [idx]"
    by (simp add: get_indices_def static_cast_u32_def)
  moreover have "unat idx < length (sketches_of c)"
    using assms by (simp add: well_formed_def word_less_nat_alt)
  ultimately show ?thesis by (simp add: serialize_def sketch_at_def)
qed

lemma deserialize_accepts:
  assumes "well_formed c" "idx < d_of c" "sk_deserialize E sk_bytes (length skStr) = Inr s"
  shows "deserialize E skStr sk_bytes idx c
         = (None, c\<lparr>sketches_of := (sketches_of c)[unat idx := s]\<rparr>)"
    and "sketches_of (snd (deserialize E skStr sk_bytes idx c)) ! unat idx = s"
    and "\<And>j. j \<noteq> unat idx \<Longrightarrow>
           sketches_of (snd (deserialize E skStr sk_bytes idx c)) ! j = sketches_of c ! j"
proof -
  have ge: "\<not> d_of c \<le> idx" using assms(2) by simp
  have len: "unat idx < length (sketches_of c)"
    using assms(1,2) by (simp add: well_formed_def word_less_nat_alt)
  show eq: "deserialize E skStr sk_bytes idx c
         = (None, c\<lparr>sketches_of := (sketches_of c)[unat idx := s]\<rparr>)"
    using ge assms(3) by (simp add: deserialize_def)
  show "sketches_of (snd (deserialize E skStr sk_bytes idx c)) ! unat idx = s"
    using len by (simp add: eq)
  show "sketches_of (snd (deserialize E skStr sk_bytes idx c)) ! j = sketches_of c ! j"
    if "j \<noteq> unat idx" for j
    using that by (simp add: eq)
qed

lemma two_mutated_eq:
  "two_mutated = \<lparr>k_of = 200, d_of = 2,
      sketches_of = [\<lparr>ex_k = 200, ex_items = [1, 3, 7]\<rparr>, \<lparr>ex_k = 200, ex_items = [2, 4, 8]\<rparr>]\<rparr>"
  by (simp add: two_mutated_def update_def update_1d_def update_sketch_def vector_def
      two_exact_def exact_kll_simps upt_conv_Cons)

text \<open>
  C8. The claim is not met by the code. The line of \<^verbatim>\<open>deserialize\<close> that reconstructs the
  sketch passes the size \<^verbatim>\<open>skStr.length()\<close>, and \<^verbatim>\<open>skStr\<close> is declared nowhere: the
  function does not compile as it is, and the size that the engine would read is not
  the size of the bytes. Scenario 6 of the spec on the reference engine, with the
  undeclared name as a parameter: the blob of channel 1 is six bytes long; after one
  more record channel 1 holds \<open>[2, 4, 8]\<close>; \<^verbatim>\<open>deserialize(blob, 1)\<close> restores \<open>[2, 4]\<close> only
  where \<open>skStr\<close> has length six. With an empty \<open>skStr\<close> the engine rejects the bytes and
  channel 1 stays as it is; with a \<open>skStr\<close> of length five the sketch \<open>[2]\<close> is put in
  its place, which is not the sketch reconstructed from the bytes.
\<close>

theorem deserialize_size_unbound:
  "serialize exact_kll two_exact [1] = Inr [[200, 0, 0, 0, 2, 4]]
   \<and> sketches_of two_mutated ! 1 = \<lparr>ex_k = 200, ex_items = [2, 4, 8]\<rparr>
   \<and> deserialize exact_kll [] [200, 0, 0, 0, 2, 4] 1 two_mutated
       = (Some (Engine_error ''insufficient buffer size''), two_mutated)
   \<and> sketches_of (snd (deserialize exact_kll ''12345'' [200, 0, 0, 0, 2, 4] 1 two_mutated)) ! 1
       = \<lparr>ex_k = 200, ex_items = [2]\<rparr>
   \<and> sketches_of (snd (deserialize exact_kll ''123456'' [200, 0, 0, 0, 2, 4] 1 two_mutated)) ! 1
       = \<lparr>ex_k = 200, ex_items = [2, 4]\<rparr>"
proof (intro conjI)
  have in_range: "\<not> (2::u32) \<le> 1" by (simp add: not_le)
  show "serialize exact_kll two_exact [1] = Inr [[200, 0, 0, 0, 2, 4]]"
    by (simp add: serialize_def get_indices_def static_cast_u32_def sketch_at_def two_exact_def
        exact_kll_def ex_serialize_def)
  show "sketches_of two_mutated ! 1 = \<lparr>ex_k = 200, ex_items = [2, 4, 8]\<rparr>"
    by (simp add: two_mutated_eq)
  show "deserialize exact_kll [] [200, 0, 0, 0, 2, 4] 1 two_mutated
       = (Some (Engine_error ''insufficient buffer size''), two_mutated)"
    using in_range by (simp add: deserialize_def two_mutated_eq exact_kll_def ex_deserialize_def)
  show "sketches_of (snd (deserialize exact_kll ''12345'' [200, 0, 0, 0, 2, 4] 1 two_mutated)) ! 1
       = \<lparr>ex_k = 200, ex_items = [2]\<rparr>"
    using in_range by (simp add: deserialize_def two_mutated_eq exact_kll_def ex_deserialize_def)
  show "sketches_of (snd (deserialize exact_kll ''123456'' [200, 0, 0, 0, 2, 4] 1 two_mutated)) ! 1
       = \<lparr>ex_k = 200, ex_items = [2, 4]\<rparr>"
    using in_range by (simp add: deserialize_def two_mutated_eq exact_kll_def ex_deserialize_def)
qed


section \<open>Bulk queries\<close>

lemma for_each_cong_set:
  "(\<And>x. x \<in> set xs \<Longrightarrow> f x = g x) \<Longrightarrow> for_each f xs = for_each g xs"
  by (induction xs) (simp_all split: sum.splits)

lemma for_each_map: "for_each f (map g xs) = for_each (\<lambda>x. f (g x)) xs"
  by (induction xs) (simp_all split: sum.splits)

lemma for_each_pure: "for_each (\<lambda>x. Inr (g x)) xs = Inr (map g xs)"
  by (induction xs) simp_all

lemma for_each_Inr:
  "for_each f xs = Inr ys \<Longrightarrow> length ys = length xs \<and> (\<forall>i<length xs. f (xs ! i) = Inr (ys ! i))"
proof (induction xs arbitrary: ys)
  case Nil
  then show ?case by simp
next
  case (Cons x xs)
  from Cons.prems obtain y ys' where y: "f x = Inr y" and r: "for_each f xs = Inr ys'"
    and ys: "ys = y # ys'"
    by (auto split: sum.splits)
  from Cons.IH [OF r] have "length ys' = length xs" "\<forall>i<length xs. f (xs ! i) = Inr (ys' ! i)"
    by simp_all
  then show ?case using y ys by (auto simp: less_Suc_eq_0_disj)
qed

lemma copy_row_length: "copy_row conv pmf n = Inr row \<Longrightarrow> length row = n + 1"
  unfolding copy_row_def by (drule for_each_Inr) simp

lemma standalone_lengths:
  "standalone_quantiles E s ranks = Inr qs \<Longrightarrow> length qs = length ranks"
  "standalone_ranks E s vals = Inr rs \<Longrightarrow> length rs = length vals"
  "standalone_pmf E s split_points = Inr ps \<Longrightarrow> length ps = length split_points + 1"
  "standalone_cdf E s split_points = Inr cs \<Longrightarrow> length cs = length split_points + 1"
  unfolding standalone_quantiles_def standalone_ranks_def standalone_pmf_def standalone_cdf_def
  by (auto dest: for_each_Inr copy_row_length split: sum.splits)

lemma rows_are_standaloneI:
  assumes "for_each f sel = Inr M" "\<And>x row. f x = Inr row \<Longrightarrow> length row = q"
  shows "rows_are_standalone M sel q f"
  using for_each_Inr [OF assms(1)] assms(2) by (auto simp: rows_are_standalone_def)

lemma valid_selector_in_range:
  assumes "valid_selector c isk" "v \<in> set isk"
  shows "v < d_of c" and "v \<noteq> - 1"
proof -
  from assms have s: "0 \<le> sint v" "sint v < uint (d_of c)"
    by (auto simp: valid_selector_def)
  then show "v < d_of c" using nonneg_uint [of v] by (simp add: word_less_alt)
  show "v \<noteq> - 1" using s(1) by auto
qed

lemma valid_selector_resolves:
  assumes "valid_selector c isk"
  shows "get_indices c isk = Inr isk"
proof (cases "length isk = 1")
  case True
  then obtain v where v: "isk = [v]" by (cases isk) auto
  then have "v \<noteq> - 1" using valid_selector_in_range(2) [OF assms, of v] by simp
  then show ?thesis using v by (simp add: get_indices_def static_cast_u32_def)
next
  case False
  then show ?thesis
    using get_indices_loop_accepts [of isk "d_of c" "[]"] valid_selector_in_range(1) [OF assms]
    by (simp add: get_indices_def)
qed

lemma valid_selector_sketch_at:
  assumes "well_formed c" "valid_selector c isk" "v \<in> set isk"
  shows "sketch_at c (unat v) = Inr (sketches_of c ! unat v)"
  using assms(1) valid_selector_in_range(1) [OF assms(2,3)]
  by (simp add: sketch_at_def well_formed_def word_less_nat_alt)

lemma sentinel_resolves: "get_indices c [- 1] = Inr (map of_nat [0..<unat (d_of c)])"
  by (simp add: get_indices_def)

lemma sentinel_sketch_at:
  assumes "well_formed c" "i < unat (d_of c)"
  shows "sketch_at c (unat (of_nat i :: u32)) = Inr (sketches_of c ! i)"
proof -
  have "unat (of_nat i :: u32) = i" using assms(2) by (intro le_unat_uoi [of i "d_of c"]) simp
  then show ?thesis using assms by (simp add: sketch_at_def well_formed_def)
qed

text \<open>The bulk queries in terms of the channel each resolved index names.\<close>

lemma bulk_queries_over:
  assumes "get_indices c isk = Inr inds"
    and "\<And>x. x \<in> set xs \<Longrightarrow> sketch_at c (unat (g x)) = Inr (ch x)"
    and "inds = map g xs"
  shows "get_quantiles E c ranks isk = for_each (\<lambda>x. standalone_quantiles E (ch x) ranks) xs"
    and "get_ranks E c vals isk = for_each (\<lambda>x. standalone_ranks E (ch x) vals) xs"
    and "get_pmf E c split_points isk = for_each (\<lambda>x. standalone_pmf E (ch x) split_points) xs"
    and "get_cdf E c split_points isk = for_each (\<lambda>x. standalone_cdf E (ch x) split_points) xs"
    and "serialize E c isk = Inr (map (\<lambda>x. sk_serialize E (ch x)) xs)"
proof -
  show "get_quantiles E c ranks isk = for_each (\<lambda>x. standalone_quantiles E (ch x) ranks) xs"
    unfolding get_quantiles_def assms(1) assms(3) standalone_quantiles_def
    by (simp add: for_each_map assms(2) cong: for_each_cong_set)
  show "get_ranks E c vals isk = for_each (\<lambda>x. standalone_ranks E (ch x) vals) xs"
    unfolding get_ranks_def assms(1) assms(3) standalone_ranks_def
    by (simp add: for_each_map assms(2) cong: for_each_cong_set)
  show "get_pmf E c split_points isk = for_each (\<lambda>x. standalone_pmf E (ch x) split_points) xs"
    unfolding get_pmf_def assms(1) assms(3) standalone_pmf_def
    by (simp add: for_each_map assms(2) cong: for_each_cong_set)
  show "get_cdf E c split_points isk = for_each (\<lambda>x. standalone_cdf E (ch x) split_points) xs"
    unfolding get_cdf_def assms(1) assms(3) standalone_cdf_def
    by (simp add: for_each_map assms(2) cong: for_each_cong_set)
  have "serialize E c isk = for_each (\<lambda>x. Inr (sk_serialize E (ch x))) xs"
    unfolding serialize_def assms(1) assms(3)
    by (simp add: for_each_map assms(2) cong: for_each_cong_set)
  then show "serialize E c isk = Inr (map (\<lambda>x. sk_serialize E (ch x)) xs)"
    by (simp add: for_each_pure)
qed

text \<open>
  C5, as the code has it. On a well-formed container, for a selector \<open>isk\<close> of length \<open>m\<close>
  (below \<open>2 ^ 32\<close>, the range of the loop counters) whose entries all lie in \<open>[0, d)\<close>, every bulk query is the sequence of the standalone
  queries on \<open>S[isk[0]]\<close>, ..., \<open>S[isk[m - 1]]\<close>, in selector order, and fails where one
  of them fails. A result has exactly \<open>m\<close> rows (\<open>m\<close> blobs for \<^verbatim>\<open>serialize\<close>), row \<open>r\<close> is
  the standalone result for \<open>S[isk[r]]\<close>, and the rows have \<open>q\<close> columns for
  \<^verbatim>\<open>get_quantiles\<close> and \<^verbatim>\<open>get_ranks\<close> over \<open>q\<close> points and \<open>s + 1\<close> columns for
  \<^verbatim>\<open>get_pmf\<close> and \<^verbatim>\<open>get_cdf\<close> over \<open>s\<close> split points. For the selector \<open>[-1]\<close>, of length
  1, the result has \<open>d\<close> rows instead: row \<open>r\<close> is the standalone result for \<open>S[r]\<close>.
\<close>

theorem bulk_rows_follow_selector:
  "(well_formed c \<and> valid_selector c isk \<and> length isk < 4294967296 \<longrightarrow>
      get_indices c isk = Inr isk
      \<and> get_quantiles E c ranks isk
          = for_each (\<lambda>v. standalone_quantiles E (sketches_of c ! unat v) ranks) isk
      \<and> get_ranks E c vals isk
          = for_each (\<lambda>v. standalone_ranks E (sketches_of c ! unat v) vals) isk
      \<and> get_pmf E c split_points isk
          = for_each (\<lambda>v. standalone_pmf E (sketches_of c ! unat v) split_points) isk
      \<and> get_cdf E c split_points isk
          = for_each (\<lambda>v. standalone_cdf E (sketches_of c ! unat v) split_points) isk
      \<and> serialize E c isk = Inr (map (\<lambda>v. sk_serialize E (sketches_of c ! unat v)) isk)
      \<and> (\<forall>M. get_quantiles E c ranks isk = Inr M \<longrightarrow>
            rows_are_standalone M isk (length ranks)
              (\<lambda>v. standalone_quantiles E (sketches_of c ! unat v) ranks))
      \<and> (\<forall>M. get_ranks E c vals isk = Inr M \<longrightarrow>
            rows_are_standalone M isk (length vals)
              (\<lambda>v. standalone_ranks E (sketches_of c ! unat v) vals))
      \<and> (\<forall>M. get_pmf E c split_points isk = Inr M \<longrightarrow>
            rows_are_standalone M isk (length split_points + 1)
              (\<lambda>v. standalone_pmf E (sketches_of c ! unat v) split_points))
      \<and> (\<forall>M. get_cdf E c split_points isk = Inr M \<longrightarrow>
            rows_are_standalone M isk (length split_points + 1)
              (\<lambda>v. standalone_cdf E (sketches_of c ! unat v) split_points)))
   \<and> (well_formed c \<longrightarrow>
      get_quantiles E c ranks [- 1]
          = for_each (\<lambda>i. standalone_quantiles E (sketches_of c ! i) ranks) [0..<unat (d_of c)]
      \<and> get_ranks E c vals [- 1]
          = for_each (\<lambda>i. standalone_ranks E (sketches_of c ! i) vals) [0..<unat (d_of c)]
      \<and> get_pmf E c split_points [- 1]
          = for_each (\<lambda>i. standalone_pmf E (sketches_of c ! i) split_points) [0..<unat (d_of c)]
      \<and> get_cdf E c split_points [- 1]
          = for_each (\<lambda>i. standalone_cdf E (sketches_of c ! i) split_points) [0..<unat (d_of c)]
      \<and> serialize E c [- 1]
          = Inr (map (\<lambda>i. sk_serialize E (sketches_of c ! i)) [0..<unat (d_of c)]))"
proof -
  have valid: "get_indices c isk = Inr isk
      \<and> get_quantiles E c ranks isk
          = for_each (\<lambda>v. standalone_quantiles E (sketches_of c ! unat v) ranks) isk
      \<and> get_ranks E c vals isk
          = for_each (\<lambda>v. standalone_ranks E (sketches_of c ! unat v) vals) isk
      \<and> get_pmf E c split_points isk
          = for_each (\<lambda>v. standalone_pmf E (sketches_of c ! unat v) split_points) isk
      \<and> get_cdf E c split_points isk
          = for_each (\<lambda>v. standalone_cdf E (sketches_of c ! unat v) split_points) isk
      \<and> serialize E c isk = Inr (map (\<lambda>v. sk_serialize E (sketches_of c ! unat v)) isk)
      \<and> (\<forall>M. get_quantiles E c ranks isk = Inr M \<longrightarrow>
            rows_are_standalone M isk (length ranks)
              (\<lambda>v. standalone_quantiles E (sketches_of c ! unat v) ranks))
      \<and> (\<forall>M. get_ranks E c vals isk = Inr M \<longrightarrow>
            rows_are_standalone M isk (length vals)
              (\<lambda>v. standalone_ranks E (sketches_of c ! unat v) vals))
      \<and> (\<forall>M. get_pmf E c split_points isk = Inr M \<longrightarrow>
            rows_are_standalone M isk (length split_points + 1)
              (\<lambda>v. standalone_pmf E (sketches_of c ! unat v) split_points))
      \<and> (\<forall>M. get_cdf E c split_points isk = Inr M \<longrightarrow>
            rows_are_standalone M isk (length split_points + 1)
              (\<lambda>v. standalone_cdf E (sketches_of c ! unat v) split_points))"
    if w: "well_formed c" and v: "valid_selector c isk"
  proof -
    have r: "get_indices c isk = Inr isk" using v by (rule valid_selector_resolves)
    have at: "sketch_at c (unat ((\<lambda>v. v) x)) = Inr (sketches_of c ! unat x)" if "x \<in> set isk" for x
      using valid_selector_sketch_at [OF w v that] by simp
    note b = bulk_queries_over [where g = "\<lambda>v. v" and ch = "\<lambda>v. sketches_of c ! unat v"
        and xs = isk and E = E, OF r at]
    have q: "get_quantiles E c ranks isk
          = for_each (\<lambda>v. standalone_quantiles E (sketches_of c ! unat v) ranks) isk"
      by (rule b(1)) simp_all
    have rk: "get_ranks E c vals isk
          = for_each (\<lambda>v. standalone_ranks E (sketches_of c ! unat v) vals) isk"
      by (rule b(2)) simp_all
    have p: "get_pmf E c split_points isk
          = for_each (\<lambda>v. standalone_pmf E (sketches_of c ! unat v) split_points) isk"
      by (rule b(3)) simp_all
    have cd: "get_cdf E c split_points isk
          = for_each (\<lambda>v. standalone_cdf E (sketches_of c ! unat v) split_points) isk"
      by (rule b(4)) simp_all
    have s: "serialize E c isk = Inr (map (\<lambda>v. sk_serialize E (sketches_of c ! unat v)) isk)"
      by (rule b(5)) simp_all
    have qr: "rows_are_standalone M isk (length ranks)
              (\<lambda>v. standalone_quantiles E (sketches_of c ! unat v) ranks)"
      if "get_quantiles E c ranks isk = Inr M" for M
      using that unfolding q by (rule rows_are_standaloneI) (rule standalone_lengths(1))
    have rr: "rows_are_standalone M isk (length vals)
              (\<lambda>v. standalone_ranks E (sketches_of c ! unat v) vals)"
      if "get_ranks E c vals isk = Inr M" for M
      using that unfolding rk by (rule rows_are_standaloneI) (rule standalone_lengths(2))
    have pr: "rows_are_standalone M isk (length split_points + 1)
              (\<lambda>v. standalone_pmf E (sketches_of c ! unat v) split_points)"
      if "get_pmf E c split_points isk = Inr M" for M
      using that unfolding p by (rule rows_are_standaloneI) (rule standalone_lengths(3))
    have cr: "rows_are_standalone M isk (length split_points + 1)
              (\<lambda>v. standalone_cdf E (sketches_of c ! unat v) split_points)"
      if "get_cdf E c split_points isk = Inr M" for M
      using that unfolding cd by (rule rows_are_standaloneI) (rule standalone_lengths(4))
    show ?thesis using r q rk p cd s qr rr pr cr by blast
  qed
  have all: "get_quantiles E c ranks [- 1]
          = for_each (\<lambda>i. standalone_quantiles E (sketches_of c ! i) ranks) [0..<unat (d_of c)]
      \<and> get_ranks E c vals [- 1]
          = for_each (\<lambda>i. standalone_ranks E (sketches_of c ! i) vals) [0..<unat (d_of c)]
      \<and> get_pmf E c split_points [- 1]
          = for_each (\<lambda>i. standalone_pmf E (sketches_of c ! i) split_points) [0..<unat (d_of c)]
      \<and> get_cdf E c split_points [- 1]
          = for_each (\<lambda>i. standalone_cdf E (sketches_of c ! i) split_points) [0..<unat (d_of c)]
      \<and> serialize E c [- 1]
          = Inr (map (\<lambda>i. sk_serialize E (sketches_of c ! i)) [0..<unat (d_of c)])"
    if w: "well_formed c"
  proof -
    have at: "sketch_at c (unat (of_nat i :: u32)) = Inr (sketches_of c ! i)"
      if "i \<in> set [0..<unat (d_of c)]" for i
      using sentinel_sketch_at [OF w, of i] that by simp
    note b = bulk_queries_over [where g = "of_nat" and ch = "\<lambda>i. sketches_of c ! i"
        and xs = "[0..<unat (d_of c)]" and E = E, OF sentinel_resolves at refl]
    show ?thesis using b by blast
  qed
  show ?thesis using valid all by blast
qed

theorem bulk_rows_follow_selector_witness:
  "well_formed two_exact \<and> valid_selector two_exact [1, 0, 1]
   \<and> get_quantiles exact_kll two_exact [1 / 2, 1] [1, 0, 1] = Inr [[2, 4], [1, 3], [2, 4]]
   \<and> get_ranks exact_kll two_exact [2] [1, 0, 1] = Inr [[1 / 2], [1 / 2], [1 / 2]]
   \<and> get_pmf exact_kll two_exact [2] [1, 0, 1] = Inr [[1 / 2, 1 / 2], [1 / 2, 1 / 2], [1 / 2, 1 / 2]]
   \<and> get_cdf exact_kll two_exact [2] [1, 0, 1] = Inr [[1 / 2, 1], [1 / 2, 1], [1 / 2, 1]]
   \<and> serialize exact_kll two_exact [1, 0, 1]
       = Inr [[200, 0, 0, 0, 2, 4], [200, 0, 0, 0, 1, 3], [200, 0, 0, 0, 2, 4]]
   \<and> rows_are_standalone [[2, 4], [1, 3], [2, 4]] [1, 0, 1 :: i32] 2
        (\<lambda>v. standalone_quantiles exact_kll (sketches_of two_exact ! unat v) [1 / 2, 1])
   \<and> get_quantiles exact_kll two_exact [1] [- 1] = Inr [[3], [4]]"
proof -
  have h: "well_formed two_exact \<and> valid_selector two_exact [1, 0, 1]"
    "length [1, 0, 1 :: i32] < 4294967296"
    by (simp_all add: well_formed_def valid_selector_def two_exact_def)
  have d: "[0..<unat (d_of two_exact)] = [0, 1]"
    by (simp add: two_exact_def upt_conv_Cons)
  have s: "sort [1, 3 :: rat] = [1, 3]" "sort [2, 4 :: rat] = [2, 4]" by simp_all
  from bulk_rows_follow_selector [of two_exact "[1, 0, 1]" exact_kll "[1 / 2, 1]" "[2]" "[2]"] h
  have tq: "get_quantiles exact_kll two_exact [1 / 2, 1] [1, 0, 1]
          = for_each (\<lambda>v. standalone_quantiles exact_kll (sketches_of two_exact ! unat v)
                            [1 / 2, 1]) [1, 0, 1 :: i32]"
    and tr: "get_ranks exact_kll two_exact [2] [1, 0, 1]
          = for_each (\<lambda>v. standalone_ranks exact_kll (sketches_of two_exact ! unat v) [2])
                     [1, 0, 1 :: i32]"
    and tp: "get_pmf exact_kll two_exact [2] [1, 0, 1]
          = for_each (\<lambda>v. standalone_pmf exact_kll (sketches_of two_exact ! unat v) [2])
                     [1, 0, 1 :: i32]"
    and tc: "get_cdf exact_kll two_exact [2] [1, 0, 1]
          = for_each (\<lambda>v. standalone_cdf exact_kll (sketches_of two_exact ! unat v) [2])
                     [1, 0, 1 :: i32]"
    and ts: "serialize exact_kll two_exact [1, 0, 1]
          = Inr (map (\<lambda>v. sk_serialize exact_kll (sketches_of two_exact ! unat v)) [1, 0, 1 :: i32])"
    and tm: "\<forall>M. get_quantiles exact_kll two_exact [1 / 2, 1] [1, 0, 1] = Inr M \<longrightarrow>
            rows_are_standalone M [1, 0, 1 :: i32] (length [1 / 2, 1 :: rat])
              (\<lambda>v. standalone_quantiles exact_kll (sketches_of two_exact ! unat v) [1 / 2, 1])"
    by blast+
  from bulk_rows_follow_selector [of two_exact "[1, 0, 1]" exact_kll "[1]" "[2]" "[2]"] h
  have ta: "get_quantiles exact_kll two_exact [1] [- 1]
          = for_each (\<lambda>i. standalone_quantiles exact_kll (sketches_of two_exact ! i) [1])
                     [0..<unat (d_of two_exact)]"
    by blast
  have q: "get_quantiles exact_kll two_exact [1 / 2, 1] [1, 0, 1] = Inr [[2, 4], [1, 3], [2, 4]]"
    unfolding tq
    by (simp add: standalone_quantiles_def two_exact_def exact_kll_def ex_get_quantile_def)
  have r: "get_ranks exact_kll two_exact [2] [1, 0, 1] = Inr [[1 / 2], [1 / 2], [1 / 2]]"
    unfolding tr
    by (simp add: standalone_ranks_def two_exact_def exact_kll_def ex_get_rank_def ex_rank_def)
  have p: "get_pmf exact_kll two_exact [2] [1, 0, 1]
           = Inr [[1 / 2, 1 / 2], [1 / 2, 1 / 2], [1 / 2, 1 / 2]]"
    unfolding tp
    by (simp add: standalone_pmf_def two_exact_def exact_kll_def ex_get_PMF_def ex_rank_def
        copy_row_def upt_conv_Cons)
  have c: "get_cdf exact_kll two_exact [2] [1, 0, 1] = Inr [[1 / 2, 1], [1 / 2, 1], [1 / 2, 1]]"
    unfolding tc
    by (simp add: standalone_cdf_def two_exact_def exact_kll_def ex_get_CDF_def ex_rank_def
        copy_row_def upt_conv_Cons)
  have b: "serialize exact_kll two_exact [1, 0, 1]
       = Inr [[200, 0, 0, 0, 2, 4], [200, 0, 0, 0, 1, 3], [200, 0, 0, 0, 2, 4]]"
    unfolding ts by (simp add: two_exact_def exact_kll_def ex_serialize_def)
  have m: "rows_are_standalone [[2, 4], [1, 3], [2, 4]] [1, 0, 1 :: i32] 2
        (\<lambda>v. standalone_quantiles exact_kll (sketches_of two_exact ! unat v) [1 / 2, 1])"
    using tm q by (simp add: numeral_2_eq_2)
  have a: "get_quantiles exact_kll two_exact [1] [- 1] = Inr [[3], [4]]"
    unfolding ta d
    by (simp add: standalone_quantiles_def two_exact_def exact_kll_def ex_get_quantile_def)
  show ?thesis using h q r p c b m a by simp
qed

text \<open>
  The claim as stated fails on the sentinel: \<open>[-1]\<close> is a selector of length 1, and on
  a container of two channels \<^verbatim>\<open>get_quantiles\<close> returns two rows and \<^verbatim>\<open>serialize\<close> two
  blobs.
\<close>

theorem bulk_rows_sentinel_counterexample:
  "length [- 1 :: i32] = 1
   \<and> get_quantiles exact_kll two_exact [1] [- 1] = Inr [[3], [4]]
   \<and> length [[3], [4 :: rat]] = 2
   \<and> serialize exact_kll two_exact [- 1] = Inr [[200, 0, 0, 0, 1, 3], [200, 0, 0, 0, 2, 4]]"
  by (simp add: get_quantiles_def serialize_def get_indices_def sketch_at_def two_exact_def
      exact_kll_def ex_get_quantile_def ex_serialize_def upt_conv_Cons)


section \<open>Text output\<close>

lemma joined_by_snoc:
  "joined_by sep (xs @ [x]) = (if xs = [] then x else joined_by sep xs @ sep @ x)"
  by (induction sep xs rule: joined_by.induct) simp_all

lemma to_string_loop:
  "fold (\<lambda>i ss. (if 0 < i then ss @ newline else ss) @ f i) [0..<n] []
   = joined_by newline (map f [0..<n])"
proof (induction n)
  case 0
  then show ?case by simp
next
  case (Suc n)
  then show ?case by (auto simp: joined_by_snoc)
qed

lemma to_string_joins:
  assumes "well_formed c"
  shows "to_string E c print_levels print_items
         = joined_by newline (summaries E c print_levels print_items)"
proof -
  have "map (\<lambda>i. sk_to_string E (sketches_of c ! i) print_levels print_items)
            [0..<length (sketches_of c)]
        = map (\<lambda>s. sk_to_string E s print_levels print_items) (sketches_of c)"
    by (rule nth_equalityI) simp_all
  then show ?thesis
    using assms by (simp add: to_string_def to_string_loop summaries_def well_formed_def)
qed

lemma ends_line_butlast: "ends_line s \<Longrightarrow> s = butlast s @ newline"
  using append_butlast_last_id [of s] by (simp add: ends_line_def newline_def)

lemma joined_lines:
  "xs \<noteq> [] \<Longrightarrow> \<forall>s\<in>set xs. ends_line s
   \<Longrightarrow> joined_by newline xs = joined_by (newline @ newline) (map butlast xs) @ newline"
proof (induction newline xs rule: joined_by.induct)
  case 1
  then show ?case by simp
next
  case (2 x)
  then show ?case using ends_line_butlast [of x] by simp
next
  case (3 x y ys)
  have "x = butlast x @ newline" using 3 by (intro ends_line_butlast) simp
  then have "x @ newline @ joined_by newline (y # ys)
             = butlast x @ (newline @ newline) @ joined_by newline (y # ys)"
    by (metis append.assoc)
  then show ?case using 3 by simp
qed

lemma split_without_blank_line: "\<not> has_blank_line s \<Longrightarrow> split_on_blank_line s = [s]"
  by (induction s rule: split_on_blank_line.induct) auto

lemma split_at_blank_line:
  "\<not> has_blank_line (b @ [CHR 0x0A])
   \<Longrightarrow> split_on_blank_line (b @ CHR 0x0A # CHR 0x0A # rest) = b # split_on_blank_line rest"
proof (induction b)
  case Nil
  then show ?case by simp
next
  case (Cons a b)
  show ?case
  proof (cases b)
    case Nil
    with Cons.prems show ?thesis by simp
  next
    case (Cons b0 b')
    with Cons.prems Cons.IH show ?thesis by auto
  qed
qed

lemma split_joined_lines:
  "xs \<noteq> [] \<Longrightarrow> \<forall>s\<in>set xs. ends_line s
   \<Longrightarrow> split_on_blank_line (joined_by newline xs) = map butlast (butlast xs) @ [last xs]"
proof (induction newline xs rule: joined_by.induct)
  case 1
  then show ?case by simp
next
  case (2 x)
  then show ?case by (simp add: ends_line_def split_without_blank_line)
next
  case (3 x y ys)
  have x: "x = butlast x @ [CHR 0x0A]" and nb: "\<not> has_blank_line x"
    using 3 ends_line_butlast [of x] by (simp_all add: ends_line_def newline_def)
  have nb': "\<not> has_blank_line (butlast x @ [CHR 0x0A])" using x nb by simp
  let ?J = "joined_by newline (y # ys)"
  have "joined_by newline (x # y # ys) = x @ [CHR 0x0A] @ ?J"
    by (simp add: newline_def)
  also have "\<dots> = (butlast x @ [CHR 0x0A]) @ [CHR 0x0A] @ ?J"
    using x by (rule arg_cong [where f = "\<lambda>z. z @ [CHR 0x0A] @ ?J"])
  also have "\<dots> = butlast x @ CHR 0x0A # CHR 0x0A # ?J"
    by simp
  finally have eq: "joined_by newline (x # y # ys) = butlast x @ CHR 0x0A # CHR 0x0A # ?J" .
  have "split_on_blank_line (joined_by newline (x # y # ys)) = butlast x # split_on_blank_line ?J"
    by (simp only: eq split_at_blank_line [OF nb'])
  then show ?case using 3 by simp
qed

text \<open>
  C9. On a well-formed container, \<^verbatim>\<open>to_string\<close> returns the \<open>d\<close> per-sketch summaries in
  channel order \<open>0..d-1\<close> with one newline put between consecutive summaries. Where
  every summary of the engine ends with a newline and holds no blank line, this is one
  blank line between consecutive summaries: the text is the summaries without their
  final newline, joined by \<open>\n\n\<close>, and a final newline; and splitting it at \<open>\n\n\<close>
  returns the \<open>d\<close> summaries in channel order, each without its final newline, the
  last one with it.
\<close>

theorem to_string_blank_line_boundaries:
  "well_formed c \<longrightarrow>
     to_string E c print_levels print_items
       = joined_by newline (summaries E c print_levels print_items)
     \<and> length (summaries E c print_levels print_items) = unat (d_of c)
     \<and> (\<forall>i<unat (d_of c). summaries E c print_levels print_items ! i
            = sk_to_string E (sketches_of c ! i) print_levels print_items)
     \<and> (d_of c \<noteq> 0 \<and> (\<forall>s\<in>set (summaries E c print_levels print_items). ends_line s) \<longrightarrow>
          to_string E c print_levels print_items
            = joined_by (newline @ newline) (map butlast (summaries E c print_levels print_items))
              @ newline
          \<and> split_on_blank_line (to_string E c print_levels print_items)
            = map butlast (butlast (summaries E c print_levels print_items))
              @ [last (summaries E c print_levels print_items)])"
proof
  assume w: "well_formed c"
  let ?ss = "summaries E c print_levels print_items"
  have j: "to_string E c print_levels print_items = joined_by newline ?ss"
    using w by (rule to_string_joins)
  have l: "length ?ss = unat (d_of c)" using w by (simp add: summaries_def well_formed_def)
  have n: "\<forall>i<unat (d_of c). ?ss ! i = sk_to_string E (sketches_of c ! i) print_levels print_items"
    using w by (simp add: summaries_def well_formed_def)
  have b: "to_string E c print_levels print_items
            = joined_by (newline @ newline) (map butlast ?ss) @ newline
          \<and> split_on_blank_line (to_string E c print_levels print_items)
            = map butlast (butlast ?ss) @ [last ?ss]"
    if "d_of c \<noteq> 0 \<and> (\<forall>s\<in>set ?ss. ends_line s)"
  proof -
    have "unat (d_of c) \<noteq> 0" using that by (simp add: unat_eq_0)
    then have ne: "?ss \<noteq> []" using l by auto
    show ?thesis
      unfolding j using joined_lines [OF ne] split_joined_lines [OF ne] that by blast
  qed
  show "to_string E c print_levels print_items = joined_by newline ?ss
     \<and> length ?ss = unat (d_of c)
     \<and> (\<forall>i<unat (d_of c). ?ss ! i = sk_to_string E (sketches_of c ! i) print_levels print_items)
     \<and> (d_of c \<noteq> 0 \<and> (\<forall>s\<in>set ?ss. ends_line s) \<longrightarrow>
          to_string E c print_levels print_items
            = joined_by (newline @ newline) (map butlast ?ss) @ newline
          \<and> split_on_blank_line (to_string E c print_levels print_items)
            = map butlast (butlast ?ss) @ [last ?ss])"
    using j l n b by blast
qed

lemma ex_to_string_200_2:
  "ex_to_string \<lparr>ex_k = 200, ex_items = [a, b]\<rparr> False False
   = ''### KLL sketch summary:'' @ [CHR 0x0A] @ ''   K              : 200'' @ [CHR 0x0A]
     @ ''   N              : 2'' @ [CHR 0x0A] @ ''### End sketch summary'' @ [CHR 0x0A]"
  by (simp add: ex_to_string_def newline_def std_to_string.simps decimal_digits_def)

theorem to_string_blank_line_boundaries_witness:
  "well_formed two_exact \<and> d_of two_exact \<noteq> 0
   \<and> ends_line (summaries exact_kll two_exact False False ! 0)
   \<and> ends_line (summaries exact_kll two_exact False False ! 1)
   \<and> to_string exact_kll two_exact False False
       = ''### KLL sketch summary:'' @ [CHR 0x0A] @ ''   K              : 200'' @ [CHR 0x0A]
         @ ''   N              : 2'' @ [CHR 0x0A] @ ''### End sketch summary'' @ [CHR 0x0A]
         @ [CHR 0x0A]
         @ ''### KLL sketch summary:'' @ [CHR 0x0A] @ ''   K              : 200'' @ [CHR 0x0A]
         @ ''   N              : 2'' @ [CHR 0x0A] @ ''### End sketch summary'' @ [CHR 0x0A]
   \<and> split_on_blank_line (to_string exact_kll two_exact False False)
       = [''### KLL sketch summary:'' @ [CHR 0x0A] @ ''   K              : 200'' @ [CHR 0x0A]
          @ ''   N              : 2'' @ [CHR 0x0A] @ ''### End sketch summary'',
          ''### KLL sketch summary:'' @ [CHR 0x0A] @ ''   K              : 200'' @ [CHR 0x0A]
          @ ''   N              : 2'' @ [CHR 0x0A] @ ''### End sketch summary'' @ [CHR 0x0A]]"
proof -
  have ss: "summaries exact_kll two_exact False False
        = [''### KLL sketch summary:'' @ [CHR 0x0A] @ ''   K              : 200'' @ [CHR 0x0A]
           @ ''   N              : 2'' @ [CHR 0x0A] @ ''### End sketch summary'' @ [CHR 0x0A],
           ''### KLL sketch summary:'' @ [CHR 0x0A] @ ''   K              : 200'' @ [CHR 0x0A]
           @ ''   N              : 2'' @ [CHR 0x0A] @ ''### End sketch summary'' @ [CHR 0x0A]]"
    by (simp add: summaries_def two_exact_def exact_kll_def ex_to_string_200_2)
  have h: "well_formed two_exact \<and> d_of two_exact \<noteq> 0"
    by (simp add: well_formed_def two_exact_def)
  have e: "\<forall>s\<in>set (summaries exact_kll two_exact False False). ends_line s"
    unfolding ss by (simp add: ends_line_def)
  from to_string_blank_line_boundaries [of two_exact exact_kll False False] h e
  have "to_string exact_kll two_exact False False
          = joined_by newline (summaries exact_kll two_exact False False)"
    and "split_on_blank_line (to_string exact_kll two_exact False False)
          = map butlast (butlast (summaries exact_kll two_exact False False))
            @ [last (summaries exact_kll two_exact False False)]"
    by blast+
  moreover have "ends_line (summaries exact_kll two_exact False False ! 0)"
    "ends_line (summaries exact_kll two_exact False False ! 1)"
    using e unfolding ss by simp_all
  ultimately show ?thesis using h unfolding ss by (simp add: newline_def)
qed


end
